theory Spec2Isabelle
  imports Complex_Main "HOL-Library.Char_ord" "HOL-Library.List_Lexorder"
begin

section \<open>Numbers and strings of the host language\<close>

text \<open>
  Amounts and balances are JavaScript numbers. They are modelled as exact reals: binary
  rounding error of IEEE doubles is not part of the model, NaN and the infinities are
  absent. \<open>Number.prototype.toFixed(2)\<close> rounds the magnitude to the nearest multiple of
  \<open>1/100\<close>, a tie going to the larger magnitude, and keeps the sign; the unary \<open>+\<close> in
  front of it reads the decimal string back as a number.
\<close>

definition toFixed2 :: "real \<Rightarrow> real" where
  "toFixed2 x =
     (if x < 0 then - (of_int \<lfloor>(- x) * 100 + 1 / 2\<rfloor> / 100)
      else of_int \<lfloor>x * 100 + 1 / 2\<rfloor> / 100)"

text \<open>A value with at most two fraction digits: rounding to two digits leaves it alone.\<close>

definition isCents :: "real \<Rightarrow> bool" where
  "isCents x \<longleftrightarrow> toFixed2 x = x"

text \<open>
  \<open>a || b\<close> on strings: the empty string is falsy. An optional field (\<open>notes?: string\<close>)
  is a \<open>string option\<close>, \<open>undefined\<close> being \<open>None\<close>.
\<close>

definition strOr :: "string \<Rightarrow> string \<Rightarrow> string" where
  "strOr a b = (if a = [] then b else a)"

fun optOr :: "string option \<Rightarrow> string \<Rightarrow> string" where
  "optOr None b = b"
| "optOr (Some a) b = strOr a b"

fun truthy :: "string option \<Rightarrow> bool" where
  "truthy None = False"
| "truthy (Some a) = (a \<noteq> [])"

section \<open>Data model\<close>

type_synonym Id = string

datatype Currency = USD | KSH

record Income =
  inc_id :: Id
  inc_date :: string
  inc_source :: string
  inc_amount :: real
  inc_accountId :: Id
  inc_notes :: "string option"

datatype RecurrencePeriod = monthly | quarterly | annually

record Recurrence =
  rec_enabled :: bool
  rec_period :: RecurrencePeriod
  rec_start :: string
  rec_end :: "string option"

record Expense =
  exp_id :: Id
  exp_date :: string
  exp_category :: string
  exp_amount :: real
  exp_isRecurring :: bool
  exp_recurrence :: "Recurrence option"
  exp_accountId :: Id
  exp_notes :: "string option"

datatype AccountType = Savings | Investment | Wallet | Bank

record Account =
  acc_id :: Id
  acc_name :: string
  acc_type :: AccountType
  acc_balance :: real
  acc_currency :: Currency

record Transfer =
  tr_id :: Id
  tr_date :: string
  tr_fromAccountId :: Id
  tr_toAccountId :: Id
  tr_amount :: real
  tr_notes :: "string option"

datatype TxnType = Deposit | Withdrawal

datatype LinkedType = LIncome | LExpense | LTransfer

record AccountTxn =
  txn_id :: Id
  txn_date :: string
  txn_accountId :: Id
  txn_type :: TxnType
  txn_amount :: real
  txn_linkedType :: LinkedType
  txn_linkedId :: Id
  txn_notes :: "string option"
  txn_transferFromId :: "Id option"
  txn_transferToId :: "Id option"

record Project =
  prj_id :: Id
  prj_name :: string
  prj_targetAmount :: real
  prj_targetDate :: string
  prj_notes :: "string option"

record ProjectContribution =
  pc_id :: Id
  pc_projectId :: Id
  pc_date :: string
  pc_amount :: real

record Investment =
  inv_id :: Id
  inv_date :: string
  inv_instrument :: string
  inv_amount :: real
  inv_accountId :: "Id option"
  inv_notes :: "string option"

record Store =
  currency :: Currency
  incomes :: "Income list"
  expenses :: "Expense list"
  accounts :: "Account list"
  transfers :: "Transfer list"
  accountTxns :: "AccountTxn list"
  projects :: "Project list"
  projectContribs :: "ProjectContribution list"
  investments :: "Investment list"

text \<open>
  \<open>emptyStore\<close> holds one wallet account whose id comes from \<open>mkId()\<close>. The id generator
  is outside the model: every id it returns is an argument of the operation that asks for it.
\<close>

definition emptyStore :: "Id \<Rightarrow> Store" where
  "emptyStore cashId =
     \<lparr> currency = USD, incomes = [], expenses = [],
       accounts = [\<lparr> acc_id = cashId, acc_name = ''Cash'', acc_type = Wallet,
                       acc_balance = 0, acc_currency = USD \<rparr>],
       transfers = [], accountTxns = [], projects = [], projectContribs = [],
       investments = [] \<rparr>"

section \<open>Ledger mutators (local mode)\<close>

text \<open>
  Each mutator below is the updater function the source hands to \<open>setStore\<close> when the
  cloud backend is off. With the backend on, the mutators only send remote requests and
  reload; that path is not modelled.
\<close>

definition adjust :: "Account list \<Rightarrow> Id \<Rightarrow> real \<Rightarrow> Account list" where
  "adjust accs accountId delta =
     map (\<lambda>a. if acc_id a = accountId
               then a\<lparr>acc_balance := toFixed2 (acc_balance a + delta)\<rparr> else a) accs"

definition addIncome :: "Id \<Rightarrow> Id \<Rightarrow> Income \<Rightarrow> Store \<Rightarrow> Store" where
  "addIncome newId txnId inc s =
     (let income = inc\<lparr>inc_id := newId\<rparr>;
          accs = adjust (accounts s) (inc_accountId inc) (inc_amount inc);
          txns = \<lparr> txn_id = txnId, txn_date = inc_date inc, txn_accountId = inc_accountId inc,
                   txn_type = Deposit, txn_amount = inc_amount inc, txn_linkedType = LIncome,
                   txn_linkedId = newId, txn_notes = Some (strOr (inc_source inc) ''Income''),
                   txn_transferFromId = None, txn_transferToId = None \<rparr> # accountTxns s
      in s\<lparr>incomes := income # incomes s, accounts := accs, accountTxns := txns\<rparr>)"

definition delIncome :: "Id \<Rightarrow> Store \<Rightarrow> Store" where
  "delIncome i s =
     (case List.find (\<lambda>x. inc_id x = i) (incomes s) of
        None \<Rightarrow> s
      | Some income \<Rightarrow>
          s\<lparr>accounts := adjust (accounts s) (inc_accountId income) (- inc_amount income),
            accountTxns := filter (\<lambda>t. \<not> (txn_linkedType t = LIncome \<and> txn_linkedId t = i))
                             (accountTxns s),
            incomes := filter (\<lambda>x. inc_id x \<noteq> i) (incomes s)\<rparr>)"

definition addExpense :: "Id \<Rightarrow> Id \<Rightarrow> Expense \<Rightarrow> Store \<Rightarrow> Store" where
  "addExpense newId txnId ex s =
     (let expense = ex\<lparr>exp_id := newId\<rparr>;
          accs = adjust (accounts s) (exp_accountId ex) (- exp_amount ex);
          txns = \<lparr> txn_id = txnId, txn_date = exp_date ex, txn_accountId = exp_accountId ex,
                   txn_type = Withdrawal, txn_amount = exp_amount ex, txn_linkedType = LExpense,
                   txn_linkedId = newId, txn_notes = Some (strOr (exp_category ex) ''Expense''),
                   txn_transferFromId = None, txn_transferToId = None \<rparr> # accountTxns s
      in s\<lparr>expenses := expense # expenses s, accounts := accs, accountTxns := txns\<rparr>)"

definition delExpense :: "Id \<Rightarrow> Store \<Rightarrow> Store" where
  "delExpense i s =
     (case List.find (\<lambda>x. exp_id x = i) (expenses s) of
        None \<Rightarrow> s
      | Some expense \<Rightarrow>
          s\<lparr>accounts := adjust (accounts s) (exp_accountId expense) (exp_amount expense),
            accountTxns := filter (\<lambda>t. \<not> (txn_linkedType t = LExpense \<and> txn_linkedId t = i))
                             (accountTxns s),
            expenses := filter (\<lambda>x. exp_id x \<noteq> i) (expenses s)\<rparr>)"

subsection \<open>Investments\<close>

definition addInvestment :: "Id \<Rightarrow> Investment \<Rightarrow> Store \<Rightarrow> Store" where
  "addInvestment newId v s =
     (let inv = v\<lparr>inv_id := newId\<rparr>;
          accs = (case inv_accountId inv of
                    None \<Rightarrow> accounts s
                  | Some a \<Rightarrow>
                      if a = [] then accounts s
                      else adjust (accounts s) a
                             (if inv_amount inv > 0 then - \<bar>inv_amount inv\<bar>
                              else \<bar>inv_amount inv\<bar>))
      in s\<lparr>investments := inv # investments s, accounts := accs\<rparr>)"

definition delInvestment :: "Id \<Rightarrow> Store \<Rightarrow> Store" where
  "delInvestment i s =
     (case List.find (\<lambda>x. inv_id x = i) (investments s) of
        None \<Rightarrow> s
      | Some v \<Rightarrow>
          s\<lparr>accounts :=
               (case inv_accountId v of
                  None \<Rightarrow> accounts s
                | Some a \<Rightarrow>
                    if a = [] then accounts s
                    else adjust (accounts s) a
                           (if inv_amount v > 0 then inv_amount v else - inv_amount v)),
            investments := filter (\<lambda>x. inv_id x \<noteq> i) (investments s)\<rparr>)"

subsection \<open>Transfers\<close>

definition accountName :: "Account list \<Rightarrow> Id \<Rightarrow> string \<Rightarrow> string" where
  "accountName accs i dflt =
     (case List.find (\<lambda>a. acc_id a = i) accs of
        None \<Rightarrow> dflt
      | Some a \<Rightarrow> strOr (acc_name a) dflt)"

definition addTransfer :: "Id \<Rightarrow> Id \<Rightarrow> Id \<Rightarrow> Transfer \<Rightarrow> Store \<Rightarrow> Store" where
  "addTransfer newId txnId1 txnId2 tr s =
     (if tr_fromAccountId tr = tr_toAccountId tr \<or> tr_amount tr \<le> 0 then s
      else
        let transfer = tr\<lparr>tr_id := newId\<rparr>;
            accs = adjust (adjust (accounts s) (tr_fromAccountId tr) (- tr_amount tr))
                     (tr_toAccountId tr) (tr_amount tr);
            fromName = accountName (accounts s) (tr_fromAccountId tr) ''From'';
            toName = accountName (accounts s) (tr_toAccountId tr) ''To'';
            txns =
              \<lparr> txn_id = txnId1, txn_date = tr_date tr, txn_accountId = tr_fromAccountId tr,
                txn_type = Withdrawal, txn_amount = tr_amount tr, txn_linkedType = LTransfer,
                txn_linkedId = newId,
                txn_notes = Some (optOr (tr_notes tr) (''Transfer to '' @ toName)),
                txn_transferFromId = Some (tr_fromAccountId tr),
                txn_transferToId = Some (tr_toAccountId tr) \<rparr>
              # \<lparr> txn_id = txnId2, txn_date = tr_date tr, txn_accountId = tr_toAccountId tr,
                  txn_type = Deposit, txn_amount = tr_amount tr, txn_linkedType = LTransfer,
                  txn_linkedId = newId,
                  txn_notes = Some (optOr (tr_notes tr) (''Transfer from '' @ fromName)),
                  txn_transferFromId = Some (tr_fromAccountId tr),
                  txn_transferToId = Some (tr_toAccountId tr) \<rparr>
              # accountTxns s
        in s\<lparr>transfers := transfer # transfers s, accounts := accs, accountTxns := txns\<rparr>)"

definition delTransfer :: "Id \<Rightarrow> Store \<Rightarrow> Store" where
  "delTransfer i s =
     (case List.find (\<lambda>x. tr_id x = i) (transfers s) of
        None \<Rightarrow> s
      | Some tr \<Rightarrow>
          s\<lparr>accounts := adjust (adjust (accounts s) (tr_fromAccountId tr) (tr_amount tr))
                           (tr_toAccountId tr) (- tr_amount tr),
            accountTxns := filter (\<lambda>t. \<not> (txn_linkedType t = LTransfer \<and> txn_linkedId t = i))
                             (accountTxns s),
            transfers := filter (\<lambda>x. tr_id x \<noteq> i) (transfers s)\<rparr>)"

definition updateTransfer :: "Transfer \<Rightarrow> Store \<Rightarrow> Store" where
  "updateTransfer edited s =
     (case List.find (\<lambda>x. tr_id x = tr_id edited) (transfers s) of
        None \<Rightarrow> s
      | Some original \<Rightarrow>
          let accs0 = adjust (adjust (accounts s) (tr_fromAccountId original) (tr_amount original))
                        (tr_toAccountId original) (- tr_amount original);
              accs = adjust (adjust accs0 (tr_fromAccountId edited) (- tr_amount edited))
                       (tr_toAccountId edited) (tr_amount edited);
              trs = map (\<lambda>t. if tr_id t = tr_id edited then edited else t) (transfers s);
              fromName = accountName (accounts s) (tr_fromAccountId edited) ''From'';
              toName = accountName (accounts s) (tr_toAccountId edited) ''To'';
              txns = map (\<lambda>t.
                  if txn_linkedType t = LTransfer \<and> txn_linkedId t = tr_id edited
                  then
                    let isFromSide = (txn_type t = Withdrawal);
                        newAccountId = (if isFromSide then tr_fromAccountId edited
                                        else tr_toAccountId edited);
                        newNotes = optOr (tr_notes edited)
                                     (if isFromSide then ''Transfer to '' @ toName
                                      else ''Transfer from '' @ fromName)
                    in t\<lparr>txn_date := tr_date edited, txn_accountId := newAccountId,
                         txn_amount := tr_amount edited, txn_notes := Some newNotes,
                         txn_transferFromId := Some (tr_fromAccountId edited),
                         txn_transferToId := Some (tr_toAccountId edited)\<rparr>
                  else t) (accountTxns s)
          in s\<lparr>accounts := accs, transfers := trs, accountTxns := txns\<rparr>)"

text \<open>
  The edit form of a transfer (\<open>EditTransferForm\<close>): its \<open>save\<close> handler reads the form
  fields, returns at once when an account is missing, the two accounts coincide or the
  amount is not positive, and otherwise hands the edited record to \<open>updateTransfer\<close>;
  this is the only call of \<open>updateTransfer\<close> in the program. \<open>amt\<close> is the number that
  \<open>parseNum\<close> returned for the amount field (a finite number, \<open>0\<close> for unreadable text).
\<close>

definition editTransferSave ::
  "Transfer \<Rightarrow> Id \<Rightarrow> Id \<Rightarrow> real \<Rightarrow> string \<Rightarrow> string \<Rightarrow> Store \<Rightarrow> Store" where
  "editTransferSave transfer fromId toId amt date notes s =
     (if fromId = [] \<or> toId = [] \<or> fromId = toId \<or> \<not> (amt > 0) then s
      else updateTransfer
             (transfer\<lparr>tr_fromAccountId := fromId, tr_toAccountId := toId, tr_amount := amt,
                       tr_date := date, tr_notes := Some notes\<rparr>) s)"

subsection \<open>Editing incomes and expenses\<close>

definition updateIncome :: "Income \<Rightarrow> Store \<Rightarrow> Store" where
  "updateIncome edited s =
     (case List.find (\<lambda>x. inc_id x = inc_id edited) (incomes s) of
        None \<Rightarrow> s
      | Some original \<Rightarrow>
          let accs =
                (if inc_accountId original \<noteq> inc_accountId edited
                 then adjust (adjust (accounts s) (inc_accountId original) (- inc_amount original))
                        (inc_accountId edited) (inc_amount edited)
                 else adjust (accounts s) (inc_accountId edited)
                        (inc_amount edited - inc_amount original));
              incs = map (\<lambda>x. if inc_id x = inc_id edited then edited else x) (incomes s);
              txns = map (\<lambda>t.
                  if txn_linkedType t = LIncome \<and> txn_linkedId t = inc_id edited
                  then t\<lparr>txn_date := inc_date edited, txn_accountId := inc_accountId edited,
                         txn_amount := inc_amount edited,
                         txn_notes := (if inc_source edited \<noteq> [] then Some (inc_source edited)
                                       else txn_notes t)\<rparr>
                  else t) (accountTxns s)
          in s\<lparr>accounts := accs, incomes := incs, accountTxns := txns\<rparr>)"

definition updateExpense :: "Expense \<Rightarrow> Store \<Rightarrow> Store" where
  "updateExpense edited s =
     (case List.find (\<lambda>x. exp_id x = exp_id edited) (expenses s) of
        None \<Rightarrow> s
      | Some original \<Rightarrow>
          let accs =
                (if exp_accountId original \<noteq> exp_accountId edited
                 then adjust (adjust (accounts s) (exp_accountId original) (exp_amount original))
                        (exp_accountId edited) (- exp_amount edited)
                 else adjust (accounts s) (exp_accountId edited)
                        (- (exp_amount edited - exp_amount original)));
              exps = map (\<lambda>x. if exp_id x = exp_id edited then edited else x) (expenses s);
              txns = map (\<lambda>t.
                  if txn_linkedType t = LExpense \<and> txn_linkedId t = exp_id edited
                  then t\<lparr>txn_date := exp_date edited, txn_accountId := exp_accountId edited,
                         txn_amount := exp_amount edited,
                         txn_notes := (if exp_category edited \<noteq> [] then Some (exp_category edited)
                                       else txn_notes t)\<rparr>
                  else t) (accountTxns s)
          in s\<lparr>accounts := accs, expenses := exps, accountTxns := txns\<rparr>)"

subsection \<open>Accounts\<close>

definition addAccount :: "Id \<Rightarrow> Account \<Rightarrow> Store \<Rightarrow> Store" where
  "addAccount newId acc s = s\<lparr>accounts := accounts s @ [acc\<lparr>acc_id := newId\<rparr>]\<rparr>"

definition delAccount :: "Id \<Rightarrow> Store \<Rightarrow> Store" where
  "delAccount i s = s\<lparr>accounts := filter (\<lambda>a. acc_id a \<noteq> i) (accounts s)\<rparr>"

section \<open>Balances derived from activity\<close>

text \<open>
  The recomputation inside \<open>hydrateFromSupabase\<close> when \<open>deriveBalances\<close> is on. The
  \<open>Map<string, number>\<close> is a partial map; \<open>map.get(k) || 0\<close> reads \<open>0\<close> for a missing key.
\<close>

definition mapGet0 :: "(Id \<rightharpoonup> real) \<Rightarrow> Id \<Rightarrow> real" where
  "mapGet0 m k = (case m k of None \<Rightarrow> 0 | Some v \<Rightarrow> v)"

definition deriveStep_income :: "Income \<Rightarrow> (Id \<rightharpoonup> real) \<Rightarrow> (Id \<rightharpoonup> real)" where
  "deriveStep_income i m = m(inc_accountId i \<mapsto> mapGet0 m (inc_accountId i) + inc_amount i)"

definition deriveStep_expense :: "Expense \<Rightarrow> (Id \<rightharpoonup> real) \<Rightarrow> (Id \<rightharpoonup> real)" where
  "deriveStep_expense e m = m(exp_accountId e \<mapsto> mapGet0 m (exp_accountId e) - exp_amount e)"

definition deriveStep_transfer :: "Transfer \<Rightarrow> (Id \<rightharpoonup> real) \<Rightarrow> (Id \<rightharpoonup> real)" where
  "deriveStep_transfer t m =
     (let m1 = m(tr_fromAccountId t \<mapsto> mapGet0 m (tr_fromAccountId t) - tr_amount t)
      in m1(tr_toAccountId t \<mapsto> mapGet0 m1 (tr_toAccountId t) + tr_amount t))"

definition deriveStep_investment :: "Investment \<Rightarrow> (Id \<rightharpoonup> real) \<Rightarrow> (Id \<rightharpoonup> real)" where
  "deriveStep_investment v m =
     (case inv_accountId v of
        None \<Rightarrow> m
      | Some a \<Rightarrow>
          if a = [] then m
          else m(a \<mapsto> mapGet0 m a
                        + (if inv_amount v > 0 then - \<bar>inv_amount v\<bar> else \<bar>inv_amount v\<bar>)))"

definition deriveBalances ::
  "Account list \<Rightarrow> Income list \<Rightarrow> Expense list \<Rightarrow> Transfer list \<Rightarrow> Investment list
   \<Rightarrow> Account list" where
  "deriveBalances accs incs exps trs invs =
     (let m0 = fold (\<lambda>a m. m(acc_id a \<mapsto> 0)) accs Map.empty;
          m1 = fold deriveStep_income incs m0;
          m2 = fold deriveStep_expense exps m1;
          m3 = fold deriveStep_transfer trs m2;
          m4 = fold deriveStep_investment invs m3
      in map (\<lambda>a. a\<lparr>acc_balance := toFixed2 (mapGet0 m4 (acc_id a))\<rparr>) accs)"

section \<open>Histories of operations\<close>

text \<open>
  One constructor for each ledger mutator. The arguments of an \<open>Add\<close> constructor that are
  ids are the values \<open>mkId()\<close> returned during that call: the id of the new record first,
  then the ids of the journal entries it writes.
\<close>

datatype Op =
    AddIncome Id Id Income
  | DelIncome Id
  | UpdateIncome Income
  | AddExpense Id Id Expense
  | DelExpense Id
  | UpdateExpense Expense
  | AddTransfer Id Id Id Transfer
  | DelTransfer Id
  | UpdateTransfer Transfer
  | AddInvestment Id Investment
  | DelInvestment Id
  | AddAccount Id Account
  | DelAccount Id

fun applyOp :: "Op \<Rightarrow> Store \<Rightarrow> Store" where
  "applyOp (AddIncome n k i) s = addIncome n k i s"
| "applyOp (DelIncome i) s = delIncome i s"
| "applyOp (UpdateIncome e) s = updateIncome e s"
| "applyOp (AddExpense n k e) s = addExpense n k e s"
| "applyOp (DelExpense i) s = delExpense i s"
| "applyOp (UpdateExpense e) s = updateExpense e s"
| "applyOp (AddTransfer n k1 k2 t) s = addTransfer n k1 k2 t s"
| "applyOp (DelTransfer i) s = delTransfer i s"
| "applyOp (UpdateTransfer e) s = updateTransfer e s"
| "applyOp (AddInvestment n v) s = addInvestment n v s"
| "applyOp (DelInvestment i) s = delInvestment i s"
| "applyOp (AddAccount n a) s = addAccount n a s"
| "applyOp (DelAccount i) s = delAccount i s"

definition run :: "Op list \<Rightarrow> Store \<Rightarrow> Store" where
  "run ops s = fold applyOp ops s"

subsection \<open>The journal as a set, and the replay of the surviving records\<close>

text \<open>Journal entries are compared without their own ids.\<close>

definition journalSet :: "Store \<Rightarrow> AccountTxn set" where
  "journalSet s = set (map (\<lambda>t. t\<lparr>txn_id := []\<rparr>) (accountTxns s))"

text \<open>
  Replaying the records that survive in \<open>s\<close>: starting from \<open>s0\<close>, every surviving income,
  expense and transfer is added again by its own \<open>add\<close> mutator, oldest first, under the id
  it carries. The ids of the journal entries written on the way do not matter for
  \<open>journalSet\<close>; the replay uses the empty string.
\<close>

definition replay :: "Store \<Rightarrow> Store \<Rightarrow> Store" where
  "replay s0 s =
     fold (\<lambda>t. addTransfer (tr_id t) [] [] t) (rev (transfers s))
       (fold (\<lambda>e. addExpense (exp_id e) [] e) (rev (expenses s))
          (fold (\<lambda>i. addIncome (inc_id i) [] i) (rev (incomes s)) s0))"

text \<open>
  Histories of the journal theorem: operations on incomes, expenses and transfers only, where
  an edit of an income or expense carries a non-empty source or category and an edit of a
  transfer carries a record that \<open>addTransfer\<close> would accept.
\<close>

fun journalOp :: "Op \<Rightarrow> bool" where
  "journalOp (AddIncome n k i) = True"
| "journalOp (DelIncome i) = True"
| "journalOp (UpdateIncome e) = (inc_source e \<noteq> [])"
| "journalOp (AddExpense n k e) = True"
| "journalOp (DelExpense i) = True"
| "journalOp (UpdateExpense e) = (exp_category e \<noteq> [])"
| "journalOp (AddTransfer n k1 k2 t) = True"
| "journalOp (DelTransfer i) = True"
| "journalOp (UpdateTransfer e) = (tr_fromAccountId e \<noteq> tr_toAccountId e \<and> tr_amount e > 0)"
| "journalOp _ = False"

text \<open>The operations on incomes, expenses and transfers, with no further condition.\<close>

fun ledgerOp :: "Op \<Rightarrow> bool" where
  "ledgerOp (AddInvestment n v) = False"
| "ledgerOp (DelInvestment i) = False"
| "ledgerOp (AddAccount n a) = False"
| "ledgerOp (DelAccount i) = False"
| "ledgerOp _ = True"

section \<open>Sample data\<close>

text \<open>Concrete records and stores on which the theorems below are instantiated.\<close>

definition accountA :: Account where
  "accountA = \<lparr> acc_id = ''A'', acc_name = ''Main'', acc_type = Bank,
                 acc_balance = 100, acc_currency = USD \<rparr>"

definition accountB :: Account where
  "accountB = \<lparr> acc_id = ''B'', acc_name = ''Reserve'', acc_type = Savings,
                 acc_balance = 50, acc_currency = USD \<rparr>"

definition twoAccounts :: Store where
  "twoAccounts = (emptyStore ''C'')\<lparr>accounts := [accountA, accountB]\<rparr>"

definition salary :: Income where
  "salary = \<lparr> inc_id = [], inc_date = ''2024-01-10'', inc_source = ''Salary'',
               inc_amount = 100, inc_accountId = ''A'', inc_notes = None \<rparr>"

definition rent :: Expense where
  "rent = \<lparr> exp_id = ''e1'', exp_date = ''2024-01-05'', exp_category = ''Rent'',
             exp_amount = 500, exp_isRecurring = True,
             exp_recurrence = Some \<lparr> rec_enabled = True, rec_period = monthly,
                                     rec_start = ''2024-01-05'', rec_end = None \<rparr>,
             exp_accountId = ''A'', exp_notes = None \<rparr>"

definition aToB :: Transfer where
  "aToB = \<lparr> tr_id = [], tr_date = ''2024-01-12'', tr_fromAccountId = ''A'',
             tr_toAccountId = ''B'', tr_amount = 30, tr_notes = None \<rparr>"

definition fundBuy :: Investment where
  "fundBuy = \<lparr> inv_id = [], inv_date = ''2024-01-15'', inv_instrument = ''MMF'',
                inv_amount = 20, inv_accountId = Some ''A'', inv_notes = None \<rparr>"

definition busyStore :: Store where
  "busyStore =
     run [AddIncome ''i1'' ''k1'' salary, AddExpense ''e1'' ''k2'' rent,
          AddTransfer ''t1'' ''k3'' ''k4'' aToB, AddInvestment ''v1'' fundBuy] twoAccounts"

section \<open>Auxiliary notions for the statements\<close>

text \<open>The balance move without rounding, and the balance of the first account with an id.\<close>

definition shift :: "Account list \<Rightarrow> Id \<Rightarrow> real \<Rightarrow> Account list" where
  "shift accs x d =
     map (\<lambda>a. if acc_id a = x then a\<lparr>acc_balance := acc_balance a + d\<rparr> else a) accs"

definition balanceOf :: "Store \<Rightarrow> Id \<Rightarrow> real option" where
  "balanceOf s i = map_option acc_balance (List.find (\<lambda>a. acc_id a = i) (accounts s))"

definition tinyTransfer :: Transfer where
  "tinyTransfer = aToB\<lparr>tr_amount := 1 / 1000\<rparr>"

definition centsAt :: "Store \<Rightarrow> Id \<Rightarrow> bool" where
  "centsAt s x \<longleftrightarrow> (\<forall>a\<in>set (accounts s). acc_id a = x \<longrightarrow> isCents (acc_balance a))"

text \<open>Edits of the transfer \<open>t1\<close> of \<open>busyStore\<close> that \<open>addTransfer\<close> would refuse.\<close>

definition selfTransfer :: Transfer where
  "selfTransfer = aToB\<lparr>tr_id := ''t1'', tr_toAccountId := ''A''\<rparr>"

definition negativeTransfer :: Transfer where
  "negativeTransfer = aToB\<lparr>tr_id := ''t1'', tr_amount := - 5\<rparr>"

text \<open>An income of \<open>0.006\<close> on the wallet of the empty store, and its edit to \<open>0.004\<close>.\<close>

definition subCentStore :: Store where
  "subCentStore = addIncome ''i1'' ''k1'' (salary\<lparr>inc_amount := 6 / 1000\<rparr>) (emptyStore ''A'')"

definition subCentEdit :: Income where
  "subCentEdit = salary\<lparr>inc_id := ''i1'', inc_amount := 4 / 1000\<rparr>"

text \<open>Edits of the records of \<open>busyStore\<close>.\<close>

definition salaryRaise :: Income where
  "salaryRaise = salary\<lparr>inc_id := ''i1'', inc_amount := 120.5, inc_accountId := ''B''\<rparr>"

definition rentRise :: Expense where
  "rentRise = rent\<lparr>exp_amount := 512.25\<rparr>"

definition bToA :: Transfer where
  "bToA = aToB\<lparr>tr_id := ''t1'', tr_fromAccountId := ''B'', tr_toAccountId := ''A'',
               tr_amount := 12\<rparr>"

section \<open>Notions for the journal theorem\<close>

text \<open>
  The entries the \<open>add\<close> mutators write for a record, without entry id; the set of these
  entries over all records of a store; the invariant that the journal is this set; and the
  rewriting of one entry by each of the three edits.
\<close>

definition stripId :: "AccountTxn \<Rightarrow> AccountTxn" where
  "stripId t = t\<lparr>txn_id := []\<rparr>"

definition incomeEntry :: "Income \<Rightarrow> AccountTxn" where
  "incomeEntry i =
     \<lparr> txn_id = [], txn_date = inc_date i, txn_accountId = inc_accountId i,
       txn_type = Deposit, txn_amount = inc_amount i, txn_linkedType = LIncome,
       txn_linkedId = inc_id i, txn_notes = Some (strOr (inc_source i) ''Income''),
       txn_transferFromId = None, txn_transferToId = None \<rparr>"

definition expenseEntry :: "Expense \<Rightarrow> AccountTxn" where
  "expenseEntry e =
     \<lparr> txn_id = [], txn_date = exp_date e, txn_accountId = exp_accountId e,
       txn_type = Withdrawal, txn_amount = exp_amount e, txn_linkedType = LExpense,
       txn_linkedId = exp_id e, txn_notes = Some (strOr (exp_category e) ''Expense''),
       txn_transferFromId = None, txn_transferToId = None \<rparr>"

definition transferOut :: "Account list \<Rightarrow> Transfer \<Rightarrow> AccountTxn" where
  "transferOut accs t =
     \<lparr> txn_id = [], txn_date = tr_date t, txn_accountId = tr_fromAccountId t,
       txn_type = Withdrawal, txn_amount = tr_amount t, txn_linkedType = LTransfer,
       txn_linkedId = tr_id t,
       txn_notes = Some (optOr (tr_notes t)
                     (''Transfer to '' @ accountName accs (tr_toAccountId t) ''To'')),
       txn_transferFromId = Some (tr_fromAccountId t),
       txn_transferToId = Some (tr_toAccountId t) \<rparr>"

definition transferIn :: "Account list \<Rightarrow> Transfer \<Rightarrow> AccountTxn" where
  "transferIn accs t =
     \<lparr> txn_id = [], txn_date = tr_date t, txn_accountId = tr_toAccountId t,
       txn_type = Deposit, txn_amount = tr_amount t, txn_linkedType = LTransfer,
       txn_linkedId = tr_id t,
       txn_notes = Some (optOr (tr_notes t)
                     (''Transfer from '' @ accountName accs (tr_fromAccountId t) ''From'')),
       txn_transferFromId = Some (tr_fromAccountId t),
       txn_transferToId = Some (tr_toAccountId t) \<rparr>"

definition journalOf :: "Account list \<Rightarrow> Store \<Rightarrow> AccountTxn set" where
  "journalOf accs s =
     incomeEntry ` set (incomes s) \<union> expenseEntry ` set (expenses s)
     \<union> transferOut accs ` set (transfers s) \<union> transferIn accs ` set (transfers s)"

definition validTransfer :: "Transfer \<Rightarrow> bool" where
  "validTransfer t \<longleftrightarrow> tr_fromAccountId t \<noteq> tr_toAccountId t \<and> tr_amount t > 0"

definition accNames :: "Account list \<Rightarrow> (Id \<times> string) list" where
  "accNames accs = map (\<lambda>a. (acc_id a, acc_name a)) accs"

definition jinv :: "Store \<Rightarrow> bool" where
  "jinv s \<longleftrightarrow> journalSet s = journalOf (accounts s) s \<and> (\<forall>t\<in>set (transfers s). validTransfer t)"

definition editIncomeEntry :: "Income \<Rightarrow> AccountTxn \<Rightarrow> AccountTxn" where
  "editIncomeEntry e t =
     (if txn_linkedType t = LIncome \<and> txn_linkedId t = inc_id e
      then t\<lparr>txn_date := inc_date e, txn_accountId := inc_accountId e,
             txn_amount := inc_amount e,
             txn_notes := (if inc_source e \<noteq> [] then Some (inc_source e) else txn_notes t)\<rparr>
      else t)"

definition editExpenseEntry :: "Expense \<Rightarrow> AccountTxn \<Rightarrow> AccountTxn" where
  "editExpenseEntry e t =
     (if txn_linkedType t = LExpense \<and> txn_linkedId t = exp_id e
      then t\<lparr>txn_date := exp_date e, txn_accountId := exp_accountId e,
             txn_amount := exp_amount e,
             txn_notes := (if exp_category e \<noteq> [] then Some (exp_category e) else txn_notes t)\<rparr>
      else t)"

definition editTransferEntry :: "Account list \<Rightarrow> Transfer \<Rightarrow> AccountTxn \<Rightarrow> AccountTxn" where
  "editTransferEntry accs e t =
     (if txn_linkedType t = LTransfer \<and> txn_linkedId t = tr_id e
      then t\<lparr>txn_date := tr_date e,
             txn_accountId := (if txn_type t = Withdrawal then tr_fromAccountId e
                               else tr_toAccountId e),
             txn_amount := tr_amount e,
             txn_notes := Some (optOr (tr_notes e)
                (if txn_type t = Withdrawal
                 then ''Transfer to '' @ accountName accs (tr_toAccountId e) ''To''
                 else ''Transfer from '' @ accountName accs (tr_fromAccountId e) ''From'')),
             txn_transferFromId := Some (tr_fromAccountId e),
             txn_transferToId := Some (tr_toAccountId e)\<rparr>
      else t)"

text \<open>Two histories from the empty store.\<close>

definition blankSourceEdit :: "Op list" where
  "blankSourceEdit =
     [AddIncome ''i1'' ''k1'' salary, UpdateIncome (salary\<lparr>inc_id := ''i1'', inc_source := []\<rparr>)]"

definition mixedHistory :: "Op list" where
  "mixedHistory =
     [AddIncome ''i1'' ''k1'' salary, AddExpense ''e1'' ''k2'' rent,
      AddTransfer ''t1'' ''k3'' ''k4'' aToB, UpdateIncome salaryRaise,
      UpdateTransfer bToA, AddIncome ''i2'' ''k5'' salary, DelIncome ''i1'',
      UpdateExpense rentRise, AddTransfer ''t2'' ''k6'' ''k7'' selfTransfer, DelTransfer ''zz'']"

section \<open>Notions for the derived-balance theorem\<close>

text \<open>
  The signed effect of one record on the account \<open>x\<close>, as the specification words it:
  an income counts \<open>+\<close>, an expense \<open>-\<close>, a transfer \<open>-\<close> on its source and \<open>+\<close> on its
  destination, an investment with an account counts with its sign flipped. \<open>netOf\<close> is
  the sum of all effects; \<open>deriveStore\<close> applies the recomputation of the source to the
  collections of a store.
\<close>

definition incomeEffect :: "Id \<Rightarrow> Income \<Rightarrow> real" where
  "incomeEffect x i = (if inc_accountId i = x then inc_amount i else 0)"

definition expenseEffect :: "Id \<Rightarrow> Expense \<Rightarrow> real" where
  "expenseEffect x e = (if exp_accountId e = x then - exp_amount e else 0)"

definition transferEffect :: "Id \<Rightarrow> Transfer \<Rightarrow> real" where
  "transferEffect x t =
     (if tr_toAccountId t = x then tr_amount t else 0)
     - (if tr_fromAccountId t = x then tr_amount t else 0)"

definition investmentEffect :: "Id \<Rightarrow> Investment \<Rightarrow> real" where
  "investmentEffect x v =
     (case inv_accountId v of
        None \<Rightarrow> 0
      | Some a \<Rightarrow> if a \<noteq> [] \<and> a = x then - inv_amount v else 0)"

definition netOf ::
  "Income list \<Rightarrow> Expense list \<Rightarrow> Transfer list \<Rightarrow> Investment list \<Rightarrow> Id \<Rightarrow> real" where
  "netOf incs exps trs invs x =
     sum_list (map (incomeEffect x) incs) + sum_list (map (expenseEffect x) exps)
     + sum_list (map (transferEffect x) trs) + sum_list (map (investmentEffect x) invs)"

definition net :: "Store \<Rightarrow> Id \<Rightarrow> real" where
  "net s x = netOf (incomes s) (expenses s) (transfers s) (investments s) x"

definition deriveStore :: "Store \<Rightarrow> Account list" where
  "deriveStore s = deriveBalances (accounts s) (incomes s) (expenses s) (transfers s) (investments s)"

text \<open>
  Histories of the derived-balance theorem. Every amount entering the store is a whole
  number of cents; the id given to a new record is not yet used in its collection (what
  \<open>mkId()\<close> provides); a new account starts at balance \<open>0\<close> under an id that no record
  refers to; and an investment that is deleted while linked to an account has a non-negative
  amount.
\<close>

definition referenced :: "Store \<Rightarrow> Id \<Rightarrow> bool" where
  "referenced s x \<longleftrightarrow>
     x \<in> inc_accountId ` set (incomes s) \<or> x \<in> exp_accountId ` set (expenses s)
     \<or> x \<in> tr_fromAccountId ` set (transfers s) \<or> x \<in> tr_toAccountId ` set (transfers s)
     \<or> Some x \<in> inv_accountId ` set (investments s)"

fun okOp :: "Store \<Rightarrow> Op \<Rightarrow> bool" where
  "okOp s (AddIncome n k i) = (n \<notin> inc_id ` set (incomes s) \<and> isCents (inc_amount i))"
| "okOp s (DelIncome i) = True"
| "okOp s (UpdateIncome e) = isCents (inc_amount e)"
| "okOp s (AddExpense n k e) = (n \<notin> exp_id ` set (expenses s) \<and> isCents (exp_amount e))"
| "okOp s (DelExpense i) = True"
| "okOp s (UpdateExpense e) = isCents (exp_amount e)"
| "okOp s (AddTransfer n k1 k2 t) = (n \<notin> tr_id ` set (transfers s) \<and> isCents (tr_amount t))"
| "okOp s (DelTransfer i) = True"
| "okOp s (UpdateTransfer e) = isCents (tr_amount e)"
| "okOp s (AddInvestment n v) = (n \<notin> inv_id ` set (investments s) \<and> isCents (inv_amount v))"
| "okOp s (DelInvestment i) =
     (\<forall>v\<in>set (investments s). inv_id v = i \<and> truthy (inv_accountId v) \<longrightarrow> 0 \<le> inv_amount v)"
| "okOp s (AddAccount n a) = (acc_balance a = 0 \<and> \<not> referenced s n)"
| "okOp s (DelAccount i) = True"

fun okHistory :: "Store \<Rightarrow> Op list \<Rightarrow> bool" where
  "okHistory s [] = True"
| "okHistory s (op # ops) = (okOp s op \<and> okHistory (applyOp op s) ops)"

text \<open>The invariant: every balance is the net effect of the records, in whole cents.\<close>

definition centsRecords :: "Store \<Rightarrow> bool" where
  "centsRecords s \<longleftrightarrow>
     (\<forall>i\<in>set (incomes s). isCents (inc_amount i)) \<and> (\<forall>e\<in>set (expenses s). isCents (exp_amount e))
     \<and> (\<forall>t\<in>set (transfers s). isCents (tr_amount t))
     \<and> (\<forall>v\<in>set (investments s). isCents (inv_amount v))"

definition distinctIds :: "Store \<Rightarrow> bool" where
  "distinctIds s \<longleftrightarrow>
     distinct (map inc_id (incomes s)) \<and> distinct (map exp_id (expenses s))
     \<and> distinct (map tr_id (transfers s)) \<and> distinct (map inv_id (investments s))"

definition tracks :: "Account list \<Rightarrow> (Id \<Rightarrow> real) \<Rightarrow> bool" where
  "tracks accs N \<longleftrightarrow> (\<forall>a\<in>set accs. acc_balance a = N (acc_id a)) \<and> (\<forall>y. isCents (N y))"

definition bump :: "(Id \<Rightarrow> real) \<Rightarrow> Id \<Rightarrow> real \<Rightarrow> Id \<Rightarrow> real" where
  "bump N x d = (\<lambda>y. N y + (if x = y then d else 0))"

definition binv :: "Store \<Rightarrow> bool" where
  "binv s \<longleftrightarrow> tracks (accounts s) (net s) \<and> centsRecords s \<and> distinctIds s"

text \<open>Three incomes of \<open>0.004\<close>; the sale of a fund; a history with every kind of operation.\<close>

definition subCentIncomes :: "Op list" where
  "subCentIncomes =
     [AddIncome ''i1'' ''k1'' (salary\<lparr>inc_amount := 4 / 1000\<rparr>),
      AddIncome ''i2'' ''k2'' (salary\<lparr>inc_amount := 4 / 1000\<rparr>),
      AddIncome ''i3'' ''k3'' (salary\<lparr>inc_amount := 4 / 1000\<rparr>)]"

definition fundSale :: Investment where
  "fundSale = fundBuy\<lparr>inv_amount := - 50\<rparr>"

definition longHistory :: "Op list" where
  "longHistory =
     [AddAccount ''B'' (accountB\<lparr>acc_balance := 0\<rparr>),
      AddIncome ''i1'' ''k1'' salary, AddExpense ''e1'' ''k2'' rent,
      AddTransfer ''t1'' ''k3'' ''k4'' aToB, AddInvestment ''v1'' fundBuy,
      AddInvestment ''v2'' fundSale, UpdateIncome salaryRaise, UpdateExpense rentRise,
      UpdateTransfer selfTransfer, DelInvestment ''v1'', AddIncome ''i2'' ''k5'' salary,
      DelIncome ''i1'', AddAccount ''D'' (accountA\<lparr>acc_balance := 0\<rparr>), DelAccount ''D'']"

section \<open>Month keys and the occurrence test of a recurrence\<close>

text \<open>
  Dates are strings \<open>YYYY-MM-DD\<close>, months are strings \<open>YYYY-MM\<close>; \<open>ymKey\<close> is
  \<open>d.slice(0, 7)\<close>. The comparisons \<open><\<close> and \<open>\<le>\<close> on strings are the lexicographic order
  on character codes, as in the host language.
\<close>

definition ymKey :: "string \<Rightarrow> string" where
  "ymKey d = take 7 d"

text \<open>
  \<open>s.split("-")\<close>: the pieces of \<open>s\<close> between the separators, at least one piece.
\<close>

fun splitOn :: "char \<Rightarrow> string \<Rightarrow> string list" where
  "splitOn c [] = [[]]"
| "splitOn c (x # xs) =
     (if x = c then [] # splitOn c xs
      else case splitOn c xs of [] \<Rightarrow> [[x]] | w # ws \<Rightarrow> (x # w) # ws)"

text \<open>
  \<open>Number\<close> on a piece of a date: a string of decimal digits denotes its value, the empty
  string 0. Every other string is taken to give NaN (\<open>None\<close>); strings with a sign, blanks,
  a fraction, an exponent or a radix prefix, which \<open>Number\<close> also reads, are outside the
  model. \<open>nthNumber xs i\<close> is \<open>Number\<close> of the \<open>i\<close>-th piece, NaN when the piece is missing
  (\<open>Number(undefined)\<close>).
\<close>

definition isDigit :: "char \<Rightarrow> bool" where
  "isDigit c \<longleftrightarrow> (48 :: nat) \<le> of_char c \<and> (of_char c :: nat) \<le> 57"

definition digitVal :: "char \<Rightarrow> int" where
  "digitVal c = int (of_char c :: nat) - 48"

definition digitChar :: "int \<Rightarrow> char" where
  "digitChar k = ''0123456789'' ! nat k"

definition jsNumber :: "string \<Rightarrow> int option" where
  "jsNumber s = (if list_all isDigit s then Some (foldl (\<lambda>a c. 10 * a + digitVal c) 0 s) else None)"

definition nthNumber :: "string list \<Rightarrow> nat \<Rightarrow> int option" where
  "nthNumber xs i = (if i < length xs then jsNumber (xs ! i) else None)"

text \<open>
  The difference in whole months between two month keys; \<open>None\<close> is NaN.
\<close>

definition monthsDiff :: "string \<Rightarrow> string \<Rightarrow> int option" where
  "monthsDiff a b =
     (case (nthNumber (splitOn CHR ''-'' a) 0, nthNumber (splitOn CHR ''-'' a) 1,
            nthNumber (splitOn CHR ''-'' b) 0, nthNumber (splitOn CHR ''-'' b) 1) of
        (Some ya, Some ma, Some yb, Some mb) \<Rightarrow> Some ((yb - ya) * 12 + (mb - ma))
      | _ \<Rightarrow> None)"

definition inRangeMonth :: "string \<Rightarrow> string \<Rightarrow> string option \<Rightarrow> bool" where
  "inRangeMonth ym startISO endISO =
     (let sYM = ymKey startISO;
          eYM = (if truthy endISO then Some (ymKey (the endISO)) else None)
      in if sYM = [] then False
         else if truthy eYM \<and> ym > the eYM then False
         else ym \<ge> sYM)"

text \<open>
  The remainder \<open>a % b\<close> of the host language takes the sign of \<open>a\<close>.
\<close>

definition jsRem :: "int \<Rightarrow> int \<Rightarrow> int" where
  "jsRem a b = sgn a * (\<bar>a\<bar> mod \<bar>b\<bar>)"

text \<open>
  The parts of \<open>recurrenceOccursThisMonth\<close>: \<open>r?.enabled || exp.isRecurring\<close>,
  \<open>r?.start || exp.date\<close>, \<open>r?.end\<close> and \<open>r?.period || "monthly"\<close>. With a NaN difference
  \<open>diff < 0\<close> is false and \<open>diff % 3 === 0\<close> is false, so only a monthly recurrence occurs.
\<close>

definition recEnabled :: "Expense \<Rightarrow> bool" where
  "recEnabled e = ((case exp_recurrence e of None \<Rightarrow> False | Some r \<Rightarrow> rec_enabled r)
                   \<or> exp_isRecurring e)"

definition anchorISO :: "Expense \<Rightarrow> string" where
  "anchorISO e = (case exp_recurrence e of None \<Rightarrow> exp_date e
                  | Some r \<Rightarrow> strOr (rec_start r) (exp_date e))"

definition recEnd :: "Expense \<Rightarrow> string option" where
  "recEnd e = (case exp_recurrence e of None \<Rightarrow> None | Some r \<Rightarrow> rec_end r)"

definition recPeriod :: "Expense \<Rightarrow> RecurrencePeriod" where
  "recPeriod e = (case exp_recurrence e of None \<Rightarrow> monthly | Some r \<Rightarrow> rec_period r)"

definition recurrenceOccursThisMonth :: "Expense \<Rightarrow> string \<Rightarrow> bool" where
  "recurrenceOccursThisMonth e ym =
     (if \<not> recEnabled e then False
      else if \<not> inRangeMonth ym (anchorISO e) (recEnd e) then False
      else case monthsDiff (ymKey (anchorISO e)) ym of
             None \<Rightarrow> (case recPeriod e of monthly \<Rightarrow> True | quarterly \<Rightarrow> False
                        | annually \<Rightarrow> False)
           | Some diff \<Rightarrow>
               if diff < 0 then False
               else case recPeriod e of
                      monthly \<Rightarrow> True
                    | quarterly \<Rightarrow> jsRem diff 3 = 0
                    | annually \<Rightarrow> jsRem diff 12 = 0)"

section \<open>Calendar dates\<close>

text \<open>
  \<open>digits2\<close> and \<open>digits4\<close> print a number with two and four decimal digits, as
  \<open>padStart\<close> and \<open>toISOString\<close> do; \<open>monthKey y m\<close> and \<open>isoDate y m d\<close> are the strings
  \<open>YYYY-MM\<close> and \<open>YYYY-MM-DD\<close> of a year, a month (1 to 12) and a day.
\<close>

definition digits2 :: "int \<Rightarrow> string" where
  "digits2 n = [digitChar (n div 10 mod 10), digitChar (n mod 10)]"

definition digits4 :: "int \<Rightarrow> string" where
  "digits4 n = digits2 (n div 100) @ digits2 n"

definition monthKey :: "int \<Rightarrow> int \<Rightarrow> string" where
  "monthKey y m = digits4 y @ ''-'' @ digits2 m"

definition isoDate :: "int \<Rightarrow> int \<Rightarrow> int \<Rightarrow> string" where
  "isoDate y m d = monthKey y m @ ''-'' @ digits2 d"

definition validMonth :: "int \<Rightarrow> int \<Rightarrow> bool" where
  "validMonth y m \<longleftrightarrow> 0 \<le> y \<and> y \<le> 9999 \<and> 1 \<le> m \<and> m \<le> 12"

text \<open>
  Days of the proleptic Gregorian calendar, as triples of year, month (1 to 12) and day.
  \<open>shiftDays c k\<close> is the day \<open>k\<close> days after \<open>c\<close> (before, for a negative \<open>k\<close>);
  \<open>daysFromCivil\<close> counts the days since 1970-01-01.
\<close>

type_synonym Civil = "int \<times> int \<times> int"

definition leapYear :: "int \<Rightarrow> bool" where
  "leapYear y \<longleftrightarrow> y mod 4 = 0 \<and> (y mod 100 \<noteq> 0 \<or> y mod 400 = 0)"

definition daysInMonth :: "int \<Rightarrow> int \<Rightarrow> int" where
  "daysInMonth y m =
     (if m = 2 then (if leapYear y then 29 else 28)
      else if m = 4 \<or> m = 6 \<or> m = 9 \<or> m = 11 then 30 else 31)"

fun validCivil :: "Civil \<Rightarrow> bool" where
  "validCivil (y, m, d) \<longleftrightarrow> 1 \<le> m \<and> m \<le> 12 \<and> 1 \<le> d \<and> d \<le> daysInMonth y m"

fun nextDay :: "Civil \<Rightarrow> Civil" where
  "nextDay (y, m, d) =
     (if d < daysInMonth y m then (y, m, d + 1)
      else if m < 12 then (y, m + 1, 1) else (y + 1, 1, 1))"

fun prevDay :: "Civil \<Rightarrow> Civil" where
  "prevDay (y, m, d) =
     (if 1 < d then (y, m, d - 1)
      else if 1 < m then (y, m - 1, daysInMonth y (m - 1)) else (y - 1, 12, 31))"

fun addDays :: "nat \<Rightarrow> Civil \<Rightarrow> Civil" where
  "addDays 0 c = c"
| "addDays (Suc n) c = addDays n (nextDay c)"

fun subDays :: "nat \<Rightarrow> Civil \<Rightarrow> Civil" where
  "subDays 0 c = c"
| "subDays (Suc n) c = subDays n (prevDay c)"

definition shiftDays :: "Civil \<Rightarrow> int \<Rightarrow> Civil" where
  "shiftDays c k = (if 0 \<le> k then addDays (nat k) c else subDays (nat (- k)) c)"

definition addMinutes :: "Civil \<times> int \<Rightarrow> int \<Rightarrow> Civil \<times> int" where
  "addMinutes cm k = (shiftDays (fst cm) ((snd cm + k) div 1440), (snd cm + k) mod 1440)"

fun daysFromCivil :: "Civil \<Rightarrow> int" where
  "daysFromCivil (y, m, d) =
     (let y1 = (if m \<le> 2 then y - 1 else y);
          era = y1 div 400;
          yoe = y1 - era * 400;
          mp = (m + 9) mod 12;
          doy = (153 * mp + 2) div 5 + d - 1;
          doe = yoe * 365 + yoe div 4 - yoe div 100 + doy
      in era * 146097 + doe - 719468)"

text \<open>
  A \<open>Date\<close> object is either invalid or an instant, kept as its UTC day and the minute of
  that day (the program never builds a date with seconds). The time zone of the host is a
  parameter \<open>tz\<close>: local time minus UTC in minutes, the same all year (a zone without
  daylight saving).

  \<open>new Date(s)\<close> on a date string \<open>YYYY-MM-DD\<close> of an existing day is midnight UTC of that
  day. The date inputs of the forms produce such strings; every other string is taken to be
  an invalid date. The getters read the local date, \<open>None\<close> being NaN; \<open>getMonth\<close> counts
  from 0; \<open>getTime\<close> is in milliseconds.

  \<open>new Date(y, m, d)\<close> is local midnight of the day \<open>d - 1\<close> days after the first of
  month \<open>m\<close> (counted from 0, any integer) of year \<open>y\<close>, years 0 to 99 meaning 1900 to 1999;
  a NaN argument gives an invalid date.

  \<open>toISODate\<close> is \<open>toISOString().slice(0, 10)\<close>: the UTC date, the year with four digits, or
  with a sign and six digits outside 0 to 9999. On an invalid date \<open>toISOString\<close> throws a
  \<open>RangeError\<close>, which is \<open>None\<close>.
\<close>

datatype JSDate = InvalidDate | Instant Civil int

definition parseDate :: "string \<Rightarrow> JSDate" where
  "parseDate s =
     (if length s = 10 \<and> s ! 4 = CHR ''-'' \<and> s ! 7 = CHR ''-''
      then case (jsNumber (take 4 s), jsNumber (take 2 (drop 5 s)), jsNumber (drop 8 s)) of
             (Some y, Some m, Some d) \<Rightarrow>
               if validCivil (y, m, d) then Instant (y, m, d) 0 else InvalidDate
           | _ \<Rightarrow> InvalidDate
      else InvalidDate)"

fun localCivil :: "int \<Rightarrow> JSDate \<Rightarrow> Civil option" where
  "localCivil tz InvalidDate = None"
| "localCivil tz (Instant c m) = Some (fst (addMinutes (c, m) tz))"

definition getFullYear :: "int \<Rightarrow> JSDate \<Rightarrow> int option" where
  "getFullYear tz dt = map_option fst (localCivil tz dt)"

definition getMonth :: "int \<Rightarrow> JSDate \<Rightarrow> int option" where
  "getMonth tz dt = map_option (\<lambda>c. fst (snd c) - 1) (localCivil tz dt)"

definition getDate :: "int \<Rightarrow> JSDate \<Rightarrow> int option" where
  "getDate tz dt = map_option (\<lambda>c. snd (snd c)) (localCivil tz dt)"

fun getTime :: "JSDate \<Rightarrow> int option" where
  "getTime InvalidDate = None"
| "getTime (Instant c m) = Some ((daysFromCivil c * 1440 + m) * 60000)"

fun dateFromParts :: "int \<Rightarrow> int option \<Rightarrow> int option \<Rightarrow> int option \<Rightarrow> JSDate" where
  "dateFromParts tz (Some y) (Some mi) (Some d) =
     (let y1 = (if 0 \<le> y \<and> y \<le> 99 then 1900 + y else y);
          months = y1 * 12 + mi;
          c = shiftDays (months div 12, months mod 12 + 1, 1) (d - 1);
          cm = addMinutes (c, 0) (- tz)
      in Instant (fst cm) (snd cm))"
| "dateFromParts tz _ _ _ = InvalidDate"

definition yearString :: "int \<Rightarrow> string" where
  "yearString y =
     (if 0 \<le> y \<and> y \<le> 9999 then digits4 y
      else (if y < 0 then ''-'' else ''+'') @ digits2 (\<bar>y\<bar> div 10000) @ digits4 \<bar>y\<bar>)"

fun toISODate :: "JSDate \<Rightarrow> string option" where
  "toISODate InvalidDate = None"
| "toISODate (Instant (y, m, d) mn) =
     Some (take 10 (yearString y @ ''-'' @ digits2 m @ ''-'' @ digits2 d))"

definition firstOfMonthFromYM :: "int \<Rightarrow> string \<Rightarrow> JSDate" where
  "firstOfMonthFromYM tz ym =
     (let parts = splitOn CHR ''-'' ym;
          m = (case nthNumber parts 1 of None \<Rightarrow> 1 | Some k \<Rightarrow> if k = 0 then 1 else k)
      in dateFromParts tz (nthNumber parts 0) (Some (m - 1)) (Some 1))"

section \<open>Recurrence projector\<close>

text \<open>
  The rows the expenses tab adds for recurring expenses without an entry in the month
  shown. \<open>dayOrOne\<close> is \<open>new Date(e.date).getDate() || 1\<close>. The bullet of the note is written
  as its three UTF-8 bytes. The source compares the rows by the string
  \<open>category|amount|accountId\<close>; the model compares the three components.
\<close>

definition monthExpensesReal :: "Expense list \<Rightarrow> string \<Rightarrow> Expense list" where
  "monthExpensesReal exps month = filter (\<lambda>e. ymKey (exp_date e) = month) exps"

definition dayOrOne :: "int \<Rightarrow> Expense \<Rightarrow> int" where
  "dayOrOne tz e = (case getDate tz (parseDate (exp_date e)) of None \<Rightarrow> 1 | Some d \<Rightarrow> d)"

definition projectedDate :: "int \<Rightarrow> string \<Rightarrow> Expense \<Rightarrow> string option" where
  "projectedDate tz month e =
     toISODate
       (dateFromParts tz (getFullYear tz (firstOfMonthFromYM tz month))
          (getMonth tz (firstOfMonthFromYM tz month))
          (Some (min 28 (dayOrOne tz e))))"

definition bullet :: string where
  "bullet = [CHR 0xE2, CHR 0x80, CHR 0xA2]"

definition projectedRow :: "string \<Rightarrow> Expense \<Rightarrow> string \<Rightarrow> Expense" where
  "projectedRow month e d =
     e\<lparr>exp_id := exp_id e @ ''__proj__'' @ month, exp_date := d,
       exp_notes := Some ((case exp_notes e of
                             None \<Rightarrow> []
                           | Some n \<Rightarrow> if n = [] then [] else n @ '' '' @ bullet @ '' '')
                          @ ''(Projected)'')\<rparr>"

fun projectRows :: "int \<Rightarrow> string \<Rightarrow> Expense list \<Rightarrow> Expense list option" where
  "projectRows tz month [] = Some []"
| "projectRows tz month (e # es) =
     (if recurrenceOccursThisMonth e month \<and> ymKey (exp_date e) \<noteq> month
      then case projectedDate tz month e of
             None \<Rightarrow> None
           | Some d \<Rightarrow> map_option ((#) (projectedRow month e d)) (projectRows tz month es)
      else projectRows tz month es)"

definition signature :: "Expense \<Rightarrow> string \<times> real \<times> Id" where
  "signature e = (exp_category e, exp_amount e, exp_accountId e)"

definition monthExpensesProjectedOnly :: "int \<Rightarrow> Expense list \<Rightarrow> string \<Rightarrow> Expense list option" where
  "monthExpensesProjectedOnly tz exps month =
     map_option
       (filter (\<lambda>p. signature p \<notin> signature ` set (monthExpensesReal exps month)))
       (projectRows tz month exps)"

section \<open>Goal statistics\<close>

text \<open>
  \<open>projectStats\<close> of the source, with the current time \<open>new Date().getTime()\<close> as the
  parameter \<open>now\<close> (milliseconds since the epoch). An invalid target date makes \<open>monthsLeft\<close>
  and \<open>requiredMonthly\<close> NaN, which is \<open>None\<close>.
\<close>

record ProjectStat =
  ps_project :: Project
  ps_contributed :: real
  ps_remaining :: real
  ps_monthsLeft :: "int option"
  ps_requiredMonthly :: "real option"

definition contributionsOf :: "ProjectContribution list \<Rightarrow> Project \<Rightarrow> ProjectContribution list" where
  "contributionsOf contribs p = filter (\<lambda>c. pc_projectId c = prj_id p) contribs"

definition monthsLeftAt :: "int \<Rightarrow> string \<Rightarrow> int option" where
  "monthsLeftAt now targetDate =
     map_option (\<lambda>t. max 1 \<lceil>real_of_int (t - now) / (1000 * 60 * 60 * 24 * 30.4)\<rceil>)
       (getTime (parseDate targetDate))"

definition projectStat :: "int \<Rightarrow> ProjectContribution list \<Rightarrow> Project \<Rightarrow> ProjectStat" where
  "projectStat now contribs p =
     (let contributed = foldl (\<lambda>s c. s + pc_amount c) 0 (contributionsOf contribs p);
          remaining = max 0 (prj_targetAmount p - contributed);
          monthsLeft = monthsLeftAt now (prj_targetDate p);
          requiredMonthly = map_option (\<lambda>k. toFixed2 (remaining / of_int k)) monthsLeft
      in \<lparr> ps_project = p, ps_contributed = contributed, ps_remaining = remaining,
           ps_monthsLeft = monthsLeft, ps_requiredMonthly = requiredMonthly \<rparr>)"

definition projectStats :: "int \<Rightarrow> Store \<Rightarrow> ProjectStat list" where
  "projectStats now s = map (projectStat now (projectContribs s)) (projects s)"

definition msPerDay :: int where
  "msPerDay = 1000 * 60 * 60 * 24"

section \<open>More sample data\<close>

definition quarterlyRent :: Expense where
  "quarterlyRent = rent\<lparr>exp_recurrence :=
       Some \<lparr> rec_enabled = True, rec_period = quarterly, rec_start = ''2024-01-05'',
              rec_end = None \<rparr>\<rparr>"


definition houseFund :: Project where
  "houseFund = \<lparr> prj_id = ''g1'', prj_name = ''House'', prj_targetAmount = 1200,
                 prj_targetDate = ''2025-01-01'', prj_notes = None \<rparr>"

definition firstDeposit :: ProjectContribution where
  "firstDeposit = \<lparr> pc_id = ''c1'', pc_projectId = ''g1'', pc_date = ''2024-06-15'',
                    pc_amount = 200 \<rparr>"

section \<open>Basic facts\<close>

lemma find_filter_neq_None: "List.find (\<lambda>x. f x = i) (filter (\<lambda>x. f x \<noteq> i) xs) = None"
  by (induction xs) auto

section \<open>Deleting twice\<close>

text \<open>
  C6. Each of \<open>delIncome\<close>, \<open>delExpense\<close>, \<open>delTransfer\<close> and \<open>delInvestment\<close> is idempotent:
  applying it twice with one id gives the store that applying it once gives. When no record
  of the collection carries the id, the store comes back unchanged.
\<close>

theorem delete_idempotent:
  "delIncome i (delIncome i s) = delIncome i s
   \<and> delExpense i (delExpense i s) = delExpense i s
   \<and> delTransfer i (delTransfer i s) = delTransfer i s
   \<and> delInvestment i (delInvestment i s) = delInvestment i s
   \<and> (i \<notin> inc_id ` set (incomes s) \<longrightarrow> delIncome i s = s)
   \<and> (i \<notin> exp_id ` set (expenses s) \<longrightarrow> delExpense i s = s)
   \<and> (i \<notin> tr_id ` set (transfers s) \<longrightarrow> delTransfer i s = s)
   \<and> (i \<notin> inv_id ` set (investments s) \<longrightarrow> delInvestment i s = s)"
proof -
  have absent: "\<And>f xs. i \<notin> f ` set xs \<Longrightarrow> List.find (\<lambda>x. f x = i) xs = None"
    by (auto simp: find_None_iff)
  have a: "delIncome i (delIncome i s) = delIncome i s"
    by (cases "List.find (\<lambda>x. inc_id x = i) (incomes s)")
       (simp_all add: delIncome_def find_filter_neq_None)
  have b: "delExpense i (delExpense i s) = delExpense i s"
    by (cases "List.find (\<lambda>x. exp_id x = i) (expenses s)")
       (simp_all add: delExpense_def find_filter_neq_None)
  have c: "delTransfer i (delTransfer i s) = delTransfer i s"
    by (cases "List.find (\<lambda>x. tr_id x = i) (transfers s)")
       (simp_all add: delTransfer_def find_filter_neq_None)
  have d: "delInvestment i (delInvestment i s) = delInvestment i s"
    by (cases "List.find (\<lambda>x. inv_id x = i) (investments s)")
       (simp_all add: delInvestment_def find_filter_neq_None)
  show ?thesis
    using a b c d
    by (simp add: delIncome_def delExpense_def delTransfer_def delInvestment_def absent)
qed

theorem delete_idempotent_witness:
  "''zz'' \<notin> inc_id ` set (incomes busyStore) \<and> delIncome ''zz'' busyStore = busyStore
   \<and> ''zz'' \<notin> exp_id ` set (expenses busyStore) \<and> delExpense ''zz'' busyStore = busyStore
   \<and> ''zz'' \<notin> tr_id ` set (transfers busyStore) \<and> delTransfer ''zz'' busyStore = busyStore
   \<and> ''zz'' \<notin> inv_id ` set (investments busyStore)
   \<and> delInvestment ''zz'' busyStore = busyStore"
proof -
  have h: "''zz'' \<notin> inc_id ` set (incomes busyStore)"
       "''zz'' \<notin> exp_id ` set (expenses busyStore)"
       "''zz'' \<notin> tr_id ` set (transfers busyStore)"
       "''zz'' \<notin> inv_id ` set (investments busyStore)"
    by (simp_all add: busyStore_def run_def twoAccounts_def emptyStore_def addIncome_def
          addExpense_def addTransfer_def addInvestment_def aToB_def Let_def)
  show ?thesis
    using h delete_idempotent [of "''zz''" busyStore] by simp
qed

section \<open>Investments and the journal\<close>

text \<open>
  C10. In local mode \<open>addInvestment\<close> and \<open>delInvestment\<close> leave the journal
  (\<open>accountTxns\<close>) exactly as it was, whether or not the investment names an account and
  the account's balance moves.
\<close>

theorem investment_keeps_journal:
  "accountTxns (addInvestment newId v s) = accountTxns s
   \<and> accountTxns (delInvestment i s) = accountTxns s"
  by (simp add: addInvestment_def delInvestment_def Let_def split: option.split)

subsection \<open>Rounding to cents\<close>

lemma toFixed2_of_int: "toFixed2 (of_int n / 100) = of_int n / 100"
proof -
  have a: "\<lfloor>(of_int n :: real) + 1 / 2\<rfloor> = n" by linarith
  have b: "\<lfloor>(1 / 2 :: real) - of_int n\<rfloor> = - n" by linarith
  show ?thesis by (simp add: toFixed2_def a b)
qed

lemma isCents_iff: "isCents x \<longleftrightarrow> (\<exists>n::int. x = of_int n / 100)"
proof
  assume "isCents x"
  then have "toFixed2 x = x" by (simp add: isCents_def)
  then show "\<exists>n::int. x = of_int n / 100"
    unfolding toFixed2_def
    by (metis of_int_minus minus_divide_left)
next
  assume "\<exists>n::int. x = of_int n / 100"
  then obtain n :: int where x: "x = of_int n / 100" by blast
  show "isCents x" unfolding isCents_def x by (rule toFixed2_of_int)
qed

lemma isCents_add: "isCents a \<Longrightarrow> isCents b \<Longrightarrow> isCents (a + b)"
  unfolding isCents_iff
  by (metis add_divide_distrib of_int_add)

lemma isCents_minus: "isCents a \<Longrightarrow> isCents (- a)"
  unfolding isCents_iff
  by (metis minus_divide_left of_int_minus)

lemma isCents_diff: "isCents a \<Longrightarrow> isCents b \<Longrightarrow> isCents (a - b)"
  using isCents_add [of a "- b"] isCents_minus [of b] by simp

lemma isCents_0: "isCents 0"
  by (simp add: isCents_def toFixed2_def)

lemma isCents_toFixed2: "isCents (toFixed2 x)"
  unfolding isCents_iff toFixed2_def
  by (metis of_int_minus minus_divide_left)

lemma toFixed2_add: "isCents a \<Longrightarrow> isCents b \<Longrightarrow> toFixed2 (a + b) = a + b"
  using isCents_add [of a b] by (simp add: isCents_def)

lemma toFixed2_diff: "isCents a \<Longrightarrow> isCents b \<Longrightarrow> toFixed2 (a - b) = a - b"
  using isCents_diff [of a b] by (simp add: isCents_def)


lemma adjust_shift:
  assumes "isCents d" and "\<forall>a\<in>set accs. acc_id a = x \<longrightarrow> isCents (acc_balance a)"
  shows "adjust accs x d = shift accs x d"
  using assms by (simp add: adjust_def shift_def toFixed2_add)

lemma addTransfer_accounts:
  "tr_fromAccountId t \<noteq> tr_toAccountId t \<Longrightarrow> tr_amount t > 0 \<Longrightarrow>
   accounts (addTransfer n k1 k2 t s) =
     adjust (adjust (accounts s) (tr_fromAccountId t) (- tr_amount t)) (tr_toAccountId t) (tr_amount t)"
  by (simp add: addTransfer_def Let_def)

section \<open>A transfer moves its amount\<close>

text \<open>
  C2, as amended. Let the sending and the receiving account differ, the amount be positive
  and a whole number of cents, both account ids occur in the accounts collection, and the
  accounts with these two ids hold whole cents. Then \<open>addTransfer\<close> lowers the balance of
  the sending account by exactly the amount, raises the balance of the receiving account by
  exactly the amount, and returns every other account as it was. Nothing is stated about
  the sum of all balances: the source forms it by adding the balances as binary floating
  point numbers without rounding, which the exact numbers of this model do not describe.
\<close>

theorem transfer_moves_amount:
  assumes ne: "tr_fromAccountId t \<noteq> tr_toAccountId t"
    and pos: "tr_amount t > 0"
    and from_in: "tr_fromAccountId t \<in> acc_id ` set (accounts s)"
    and to_in: "tr_toAccountId t \<in> acc_id ` set (accounts s)"
    and amt: "isCents (tr_amount t)"
    and bal: "\<forall>a\<in>set (accounts s).
                acc_id a = tr_fromAccountId t \<or> acc_id a = tr_toAccountId t
                \<longrightarrow> isCents (acc_balance a)"
  shows "accounts (addTransfer n k1 k2 t s) =
           map (\<lambda>a. if acc_id a = tr_fromAccountId t
                     then a\<lparr>acc_balance := acc_balance a - tr_amount t\<rparr>
                     else if acc_id a = tr_toAccountId t
                     then a\<lparr>acc_balance := acc_balance a + tr_amount t\<rparr>
                     else a) (accounts s)"
proof -
  let ?f = "tr_fromAccountId t" and ?g = "tr_toAccountId t" and ?d = "tr_amount t"
  have s1: "adjust (accounts s) ?f (- ?d) = shift (accounts s) ?f (- ?d)"
    using amt bal by (intro adjust_shift) (auto intro: isCents_minus)
  have keep: "\<forall>a\<in>set (shift (accounts s) ?f (- ?d)). acc_id a = ?g \<longrightarrow> isCents (acc_balance a)"
    using bal ne by (auto simp: shift_def)
  have s2: "adjust (shift (accounts s) ?f (- ?d)) ?g ?d = shift (shift (accounts s) ?f (- ?d)) ?g ?d"
    using amt keep by (intro adjust_shift)
  have acc: "accounts (addTransfer n k1 k2 t s) = shift (shift (accounts s) ?f (- ?d)) ?g ?d"
    using ne pos by (simp add: addTransfer_accounts s1 s2)
  have first: "shift (shift (accounts s) ?f (- ?d)) ?g ?d =
           map (\<lambda>a. if acc_id a = ?f then a\<lparr>acc_balance := acc_balance a - ?d\<rparr>
                     else if acc_id a = ?g then a\<lparr>acc_balance := acc_balance a + ?d\<rparr>
                     else a) (accounts s)"
    using ne by (auto simp: shift_def)
  show ?thesis using acc first by simp
qed

text \<open>
  Without the restriction to whole cents the balances do not move by the amount: a transfer
  of \<open>0.001\<close> out of an account holding \<open>100\<close> leaves \<open>100\<close>, since every adjustment is
  rounded to two digits.
\<close>

theorem transfer_moves_amount_counterexample:
  "tr_fromAccountId tinyTransfer \<noteq> tr_toAccountId tinyTransfer
   \<and> tr_amount tinyTransfer > 0
   \<and> tr_fromAccountId tinyTransfer \<in> acc_id ` set (accounts twoAccounts)
   \<and> tr_toAccountId tinyTransfer \<in> acc_id ` set (accounts twoAccounts)
   \<and> balanceOf twoAccounts ''A'' = Some 100
   \<and> balanceOf (addTransfer ''t1'' ''k1'' ''k2'' tinyTransfer twoAccounts) ''A'' = Some 100
   \<and> balanceOf (addTransfer ''t1'' ''k1'' ''k2'' tinyTransfer twoAccounts) ''A''
       \<noteq> Some (100 - tr_amount tinyTransfer)"
  by (simp add: tinyTransfer_def aToB_def twoAccounts_def emptyStore_def accountA_def
        accountB_def balanceOf_def addTransfer_def adjust_def toFixed2_def Let_def)

theorem transfer_moves_amount_witness:
  "tr_fromAccountId aToB \<noteq> tr_toAccountId aToB \<and> tr_amount aToB > 0
   \<and> map acc_balance (accounts twoAccounts) = [100, 50]
   \<and> map acc_balance (accounts (addTransfer ''t1'' ''k1'' ''k2'' aToB twoAccounts)) = [70, 80]"
proof -
  have h: "tr_fromAccountId aToB \<noteq> tr_toAccountId aToB" "tr_amount aToB > 0"
      "tr_fromAccountId aToB \<in> acc_id ` set (accounts twoAccounts)"
      "tr_toAccountId aToB \<in> acc_id ` set (accounts twoAccounts)"
      "isCents (tr_amount aToB)"
      "\<forall>a\<in>set (accounts twoAccounts).
          acc_id a = tr_fromAccountId aToB \<or> acc_id a = tr_toAccountId aToB
          \<longrightarrow> isCents (acc_balance a)"
    by (simp_all add: aToB_def twoAccounts_def emptyStore_def accountA_def accountB_def
          isCents_def toFixed2_def)
  have "accounts (addTransfer ''t1'' ''k1'' ''k2'' aToB twoAccounts) =
           map (\<lambda>a. if acc_id a = tr_fromAccountId aToB
                     then a\<lparr>acc_balance := acc_balance a - tr_amount aToB\<rparr>
                     else if acc_id a = tr_toAccountId aToB
                     then a\<lparr>acc_balance := acc_balance a + tr_amount aToB\<rparr>
                     else a) (accounts twoAccounts)"
    using transfer_moves_amount [OF h] by simp
  then have "map acc_balance (accounts (addTransfer ''t1'' ''k1'' ''k2'' aToB twoAccounts)) = [70, 80]"
    by (simp add: aToB_def twoAccounts_def emptyStore_def accountA_def accountB_def)
  then show ?thesis using h
    by (simp add: twoAccounts_def emptyStore_def accountA_def accountB_def)
qed

section \<open>Rejected transfers\<close>

lemma addTransfer_rejects:
  "tr_fromAccountId t = tr_toAccountId t \<or> tr_amount t \<le> 0 \<Longrightarrow> addTransfer n k1 k2 t s = s"
  by (auto simp: addTransfer_def)

lemma busyStore_eval:
  "busyStore =
    \<lparr> currency = USD,
      incomes = [salary\<lparr>inc_id := ''i1''\<rparr>],
      expenses = [rent],
      accounts = [accountA\<lparr>acc_balance := - 350\<rparr>, accountB\<lparr>acc_balance := 80\<rparr>],
      transfers = [aToB\<lparr>tr_id := ''t1''\<rparr>],
      accountTxns =
        [\<lparr> txn_id = ''k3'', txn_date = ''2024-01-12'', txn_accountId = ''A'',
           txn_type = Withdrawal, txn_amount = 30, txn_linkedType = LTransfer,
           txn_linkedId = ''t1'', txn_notes = Some ''Transfer to Reserve'',
           txn_transferFromId = Some ''A'', txn_transferToId = Some ''B'' \<rparr>,
         \<lparr> txn_id = ''k4'', txn_date = ''2024-01-12'', txn_accountId = ''B'',
           txn_type = Deposit, txn_amount = 30, txn_linkedType = LTransfer,
           txn_linkedId = ''t1'', txn_notes = Some ''Transfer from Main'',
           txn_transferFromId = Some ''A'', txn_transferToId = Some ''B'' \<rparr>,
         \<lparr> txn_id = ''k2'', txn_date = ''2024-01-05'', txn_accountId = ''A'',
           txn_type = Withdrawal, txn_amount = 500, txn_linkedType = LExpense,
           txn_linkedId = ''e1'', txn_notes = Some ''Rent'',
           txn_transferFromId = None, txn_transferToId = None \<rparr>,
         \<lparr> txn_id = ''k1'', txn_date = ''2024-01-10'', txn_accountId = ''A'',
           txn_type = Deposit, txn_amount = 100, txn_linkedType = LIncome,
           txn_linkedId = ''i1'', txn_notes = Some ''Salary'',
           txn_transferFromId = None, txn_transferToId = None \<rparr>],
      projects = [], projectContribs = [],
      investments = [fundBuy\<lparr>inv_id := ''v1''\<rparr>] \<rparr>"
  by (simp add: busyStore_def run_def twoAccounts_def emptyStore_def addIncome_def
        addExpense_def addTransfer_def addInvestment_def adjust_def toFixed2_def
        accountName_def strOr_def salary_def rent_def aToB_def fundBuy_def
        accountA_def accountB_def Let_def)

text \<open>
  C3, as amended. \<open>addTransfer\<close> returns the store unchanged (accounts, transfers and
  journal) when the two accounts of its argument coincide or the amount is not positive.
  An edit is refused one step earlier, by the edit form: saving an edit whose two accounts
  coincide or whose amount is not positive returns the store unchanged, without calling
  \<open>updateTransfer\<close>.
\<close>

theorem invalid_transfer_no_change:
  "(tr_fromAccountId t = tr_toAccountId t \<or> tr_amount t \<le> 0
      \<longrightarrow> addTransfer n k1 k2 t s = s)
   \<and> (fromId = toId \<or> amt \<le> 0
      \<longrightarrow> editTransferSave original fromId toId amt date notes s = s)"
  by (auto simp: addTransfer_def editTransferSave_def)

text \<open>
  \<open>updateTransfer\<close> itself has no such test. Called directly on the transfer \<open>t1\<close> of
  \<open>busyStore\<close> with an edit whose two accounts are both \<open>A\<close>, it moves the balances from
  \<open>[-350, 80]\<close> to \<open>[-320, 50]\<close>, stores the edited record and puts both journal entries
  on account \<open>A\<close>; with an edit of amount \<open>-5\<close> it moves the balances to \<open>[-315, 45]\<close>.
\<close>

theorem updateTransfer_applies_invalid_edit:
  "tr_fromAccountId selfTransfer = tr_toAccountId selfTransfer
   \<and> map acc_balance (accounts busyStore) = [- 350, 80]
   \<and> map acc_balance (accounts (updateTransfer selfTransfer busyStore)) = [- 320, 50]
   \<and> transfers (updateTransfer selfTransfer busyStore) = [selfTransfer]
   \<and> transfers busyStore \<noteq> [selfTransfer]
   \<and> map txn_accountId (accountTxns (updateTransfer selfTransfer busyStore))
       = [''A'', ''A'', ''A'', ''A'']
   \<and> map txn_accountId (accountTxns busyStore) = [''A'', ''B'', ''A'', ''A'']
   \<and> tr_amount negativeTransfer \<le> 0
   \<and> map acc_balance (accounts (updateTransfer negativeTransfer busyStore)) = [- 315, 45]"
  by (simp add: busyStore_eval updateTransfer_def selfTransfer_def negativeTransfer_def
        aToB_def accountA_def accountB_def adjust_def toFixed2_def accountName_def
        strOr_def Let_def)

theorem invalid_transfer_no_change_witness:
  "tr_fromAccountId selfTransfer = tr_toAccountId selfTransfer
   \<and> addTransfer ''t2'' ''k5'' ''k6'' selfTransfer busyStore = busyStore
   \<and> tr_amount negativeTransfer \<le> 0
   \<and> addTransfer ''t2'' ''k5'' ''k6'' negativeTransfer busyStore = busyStore
   \<and> editTransferSave (aToB\<lparr>tr_id := ''t1''\<rparr>) ''A'' ''A'' 30 ''2024-01-12'' [] busyStore
       = busyStore
   \<and> editTransferSave (aToB\<lparr>tr_id := ''t1''\<rparr>) ''A'' ''B'' (- 5) ''2024-01-12'' [] busyStore
       = busyStore"
proof -
  have h: "tr_fromAccountId selfTransfer = tr_toAccountId selfTransfer"
      "tr_amount negativeTransfer \<le> 0"
    by (simp_all add: selfTransfer_def negativeTransfer_def aToB_def)
  show ?thesis
    using h
      invalid_transfer_no_change [of selfTransfer "''t2''" "''k5''" "''k6''" busyStore
        "''A''" "''A''" 30 "aToB\<lparr>tr_id := ''t1''\<rparr>" "''2024-01-12''" "[]"]
      invalid_transfer_no_change [of negativeTransfer "''t2''" "''k5''" "''k6''" busyStore
        "''A''" "''B''" "- 5" "aToB\<lparr>tr_id := ''t1''\<rparr>" "''2024-01-12''" "[]"]
    by simp
qed

section \<open>An edit against a delete followed by an add\<close>

lemma shift_shift: "shift (shift accs x a) x b = shift accs x (a + b)"
  by (induction accs) (simp_all add: shift_def add.assoc)

lemma centsAt_shift:
  assumes "centsAt s x" and "isCents d"
  shows "\<forall>a\<in>set (shift (accounts s) x d). acc_id a = x \<longrightarrow> isCents (acc_balance a)"
proof
  fix a assume "a \<in> set (shift (accounts s) x d)"
  then obtain b where b: "b \<in> set (accounts s)"
      and a: "a = (if acc_id b = x then b\<lparr>acc_balance := acc_balance b + d\<rparr> else b)"
    unfolding shift_def by auto
  show "acc_id a = x \<longrightarrow> isCents (acc_balance a)"
  proof
    assume "acc_id a = x"
    with a have x: "acc_id b = x" by (simp split: if_splits)
    with b assms(1) have "isCents (acc_balance b)" unfolding centsAt_def by blast
    with assms(2) have "isCents (acc_balance b + d)" by (rule isCents_add[rotated])
    with a x show "isCents (acc_balance a)" by simp
  qed
qed

lemma adjust_twice_same:
  assumes "centsAt s x" "isCents a" "isCents b"
  shows "adjust (adjust (accounts s) x a) x b = adjust (accounts s) x (a + b)"
proof -
  have c0: "\<forall>y\<in>set (accounts s). acc_id y = x \<longrightarrow> isCents (acc_balance y)"
    using assms(1) unfolding centsAt_def .
  have 1: "adjust (accounts s) x a = shift (accounts s) x a"
    using assms(2) c0 by (rule adjust_shift)
  have 2: "adjust (shift (accounts s) x a) x b = shift (shift (accounts s) x a) x b"
    using assms(3) centsAt_shift [OF assms(1) assms(2)] by (rule adjust_shift)
  have 3: "adjust (accounts s) x (a + b) = shift (accounts s) x (a + b)"
    using isCents_add [OF assms(2) assms(3)] c0 by (rule adjust_shift)
  show ?thesis by (simp only: 1 2 3 shift_shift)
qed

lemma find_Some_id: "List.find (\<lambda>x. f x = i) xs = Some y \<Longrightarrow> f y = i"
  by (induction xs) (auto split: if_splits)

lemma update_income_accounts:
  assumes f: "List.find (\<lambda>x. inc_id x = inc_id e) (incomes s) = Some orig"
    and c: "inc_accountId orig = inc_accountId e \<longrightarrow>
              isCents (inc_amount orig) \<and> isCents (inc_amount e) \<and> centsAt s (inc_accountId e)"
  shows "accounts (updateIncome e s) = accounts (addIncome n k e (delIncome (inc_id e) s))"
proof (cases "inc_accountId orig = inc_accountId e")
  case True
  with c have "adjust (adjust (accounts s) (inc_accountId e) (- inc_amount orig))
                 (inc_accountId e) (inc_amount e)
               = adjust (accounts s) (inc_accountId e) (- inc_amount orig + inc_amount e)"
    by (intro adjust_twice_same) (auto intro: isCents_minus)
  with True f show ?thesis
    by (simp add: updateIncome_def addIncome_def delIncome_def Let_def)
next
  case False
  with f show ?thesis
    by (simp add: updateIncome_def addIncome_def delIncome_def Let_def)
qed

lemma update_expense_accounts:
  assumes f: "List.find (\<lambda>x. exp_id x = exp_id e) (expenses s) = Some orig"
    and c: "exp_accountId orig = exp_accountId e \<longrightarrow>
              isCents (exp_amount orig) \<and> isCents (exp_amount e) \<and> centsAt s (exp_accountId e)"
  shows "accounts (updateExpense e s) = accounts (addExpense n k e (delExpense (exp_id e) s))"
proof (cases "exp_accountId orig = exp_accountId e")
  case True
  with c have "adjust (adjust (accounts s) (exp_accountId e) (exp_amount orig))
                 (exp_accountId e) (- exp_amount e)
               = adjust (accounts s) (exp_accountId e) (exp_amount orig + - exp_amount e)"
    by (intro adjust_twice_same) (auto intro: isCents_minus)
  with True f show ?thesis
    by (simp add: updateExpense_def addExpense_def delExpense_def Let_def)
next
  case False
  with f show ?thesis
    by (simp add: updateExpense_def addExpense_def delExpense_def Let_def)
qed

lemma update_transfer_accounts:
  assumes f: "List.find (\<lambda>x. tr_id x = tr_id e) (transfers s) = Some orig"
    and v: "tr_fromAccountId e \<noteq> tr_toAccountId e" "tr_amount e > 0"
  shows "accounts (updateTransfer e s)
         = accounts (addTransfer n k1 k2 e (delTransfer (tr_id e) s))"
  using f v by (simp add: updateTransfer_def addTransfer_def delTransfer_def Let_def)

text \<open>
  C4, as amended. Let the store hold an original record with the id of the edited one (the
  first such record is the one the mutators use). For an income or an expense whose account
  is unchanged, let the two amounts and the balance of that account be whole cents; for a
  transfer, let the edited record be one \<open>addTransfer\<close> accepts (different accounts,
  positive amount). Then the update leaves the same accounts, balances included, as the
  delete of the original followed by the add of the edited record under a fresh id. An
  income or expense moved to another account needs no condition on the amounts.
\<close>

theorem update_is_delete_then_add:
  "(List.find (\<lambda>x. inc_id x = inc_id ei) (incomes s) = Some oi
      \<and> (inc_accountId oi = inc_accountId ei \<longrightarrow>
           isCents (inc_amount oi) \<and> isCents (inc_amount ei) \<and> centsAt s (inc_accountId ei))
     \<longrightarrow> accounts (updateIncome ei s) = accounts (addIncome n k ei (delIncome (inc_id ei) s)))
   \<and> (List.find (\<lambda>x. exp_id x = exp_id ee) (expenses s) = Some oe
      \<and> (exp_accountId oe = exp_accountId ee \<longrightarrow>
           isCents (exp_amount oe) \<and> isCents (exp_amount ee) \<and> centsAt s (exp_accountId ee))
     \<longrightarrow> accounts (updateExpense ee s) = accounts (addExpense n k ee (delExpense (exp_id ee) s)))
   \<and> (List.find (\<lambda>x. tr_id x = tr_id et) (transfers s) = Some ot
      \<and> tr_fromAccountId et \<noteq> tr_toAccountId et \<and> tr_amount et > 0
     \<longrightarrow> accounts (updateTransfer et s)
         = accounts (addTransfer n k1 k2 et (delTransfer (tr_id et) s)))"
  using update_income_accounts [of ei s oi n k] update_expense_accounts [of ee s oe n k]
    update_transfer_accounts [of et s ot n k1 k2]
  by blast

text \<open>
  With amounts below a cent the two differ: the edit applies one rounded difference, the
  delete and the add round twice. An income of \<open>0.006\<close> edited to \<open>0.004\<close> on a balance of
  \<open>0.01\<close> leaves \<open>0.01\<close> by the edit and \<open>0\<close> by delete and add.
\<close>

theorem update_is_delete_then_add_counterexample:
  "List.find (\<lambda>x. inc_id x = inc_id subCentEdit) (incomes subCentStore)
     = Some (salary\<lparr>inc_id := ''i1'', inc_amount := 6 / 1000\<rparr>)
   \<and> map acc_balance (accounts (updateIncome subCentEdit subCentStore)) = [1 / 100]
   \<and> map acc_balance
        (accounts (addIncome ''i2'' ''k2'' subCentEdit (delIncome (inc_id subCentEdit) subCentStore)))
       = [0]"
  by (simp add: subCentStore_def subCentEdit_def salary_def emptyStore_def addIncome_def
        delIncome_def updateIncome_def adjust_def toFixed2_def Let_def)

theorem update_is_delete_then_add_witness:
  "map acc_balance (accounts (updateIncome salaryRaise busyStore)) = [- 450, 200.5]
   \<and> map acc_balance
        (accounts (addIncome ''i9'' ''k9'' salaryRaise (delIncome (inc_id salaryRaise) busyStore)))
       = [- 450, 200.5]
   \<and> map acc_balance (accounts (updateExpense rentRise busyStore)) = [- 362.25, 80]
   \<and> map acc_balance
        (accounts (addExpense ''i9'' ''k9'' rentRise (delExpense (exp_id rentRise) busyStore)))
       = [- 362.25, 80]
   \<and> map acc_balance (accounts (updateTransfer bToA busyStore)) = [- 308, 38]
   \<and> map acc_balance
        (accounts (addTransfer ''i9'' ''k8'' ''k9'' bToA (delTransfer (tr_id bToA) busyStore)))
       = [- 308, 38]"
proof -
  have i: "List.find (\<lambda>x. inc_id x = inc_id salaryRaise) (incomes busyStore)
             = Some (salary\<lparr>inc_id := ''i1''\<rparr>)"
      "inc_accountId (salary\<lparr>inc_id := ''i1''\<rparr>) \<noteq> inc_accountId salaryRaise"
    by (simp_all add: busyStore_eval salaryRaise_def salary_def)
  have e: "List.find (\<lambda>x. exp_id x = exp_id rentRise) (expenses busyStore) = Some rent"
      "isCents (exp_amount rent)" "isCents (exp_amount rentRise)"
      "centsAt busyStore (exp_accountId rentRise)"
    by (simp_all add: busyStore_eval rentRise_def rent_def centsAt_def accountA_def
          accountB_def isCents_def toFixed2_def)
  have t: "List.find (\<lambda>x. tr_id x = tr_id bToA) (transfers busyStore)
             = Some (aToB\<lparr>tr_id := ''t1''\<rparr>)"
      "tr_fromAccountId bToA \<noteq> tr_toAccountId bToA" "tr_amount bToA > 0"
    by (simp_all add: busyStore_eval bToA_def aToB_def)
  note T = update_is_delete_then_add
      [of salaryRaise busyStore "salary\<lparr>inc_id := ''i1''\<rparr>" "''i9''" "''k9''"
          rentRise rent bToA "aToB\<lparr>tr_id := ''t1''\<rparr>" "''k8''" "''k9''"]
  have eq1: "accounts (updateIncome salaryRaise busyStore)
      = accounts (addIncome ''i9'' ''k9'' salaryRaise (delIncome (inc_id salaryRaise) busyStore))"
    using T i by blast
  have eq2: "accounts (updateExpense rentRise busyStore)
      = accounts (addExpense ''i9'' ''k9'' rentRise (delExpense (exp_id rentRise) busyStore))"
    using T e by blast
  have eq3: "accounts (updateTransfer bToA busyStore)
      = accounts (addTransfer ''i9'' ''k8'' ''k9'' bToA (delTransfer (tr_id bToA) busyStore))"
    using T t by blast
  have v1: "map acc_balance (accounts (updateIncome salaryRaise busyStore)) = [- 450, 200.5]"
    by (simp add: busyStore_eval updateIncome_def salaryRaise_def salary_def accountA_def
          accountB_def adjust_def toFixed2_def Let_def)
  have v2: "map acc_balance (accounts (updateExpense rentRise busyStore)) = [- 362.25, 80]"
    by (simp add: busyStore_eval updateExpense_def rentRise_def rent_def accountA_def
          accountB_def adjust_def toFixed2_def Let_def)
  have v3: "map acc_balance (accounts (updateTransfer bToA busyStore)) = [- 308, 38]"
    by (simp add: busyStore_eval updateTransfer_def bToA_def aToB_def accountA_def
          accountB_def adjust_def toFixed2_def Let_def)
  show ?thesis
    using v1 v2 v3 by (simp only: eq1 [symmetric] eq2 [symmetric] eq3 [symmetric] simp_thms)
qed

section \<open>The journal is derivable from the surviving records\<close>

lemma journalSet_strip: "journalSet s = stripId ` set (accountTxns s)"
  by (simp add: journalSet_def stripId_def)

lemma accNames_adjust: "accNames (adjust accs x d) = accNames accs"
  by (simp add: accNames_def adjust_def)

lemma accountName_map_of:
  "accountName accs i d = (case map_of (accNames accs) i of None \<Rightarrow> d | Some n \<Rightarrow> strOr n d)"
  by (induction accs) (simp_all add: accountName_def accNames_def)

lemma accountName_cong: "accNames a = accNames b \<Longrightarrow> accountName a i d = accountName b i d"
  by (simp add: accountName_map_of)

lemma transferOut_cong: "accNames a = accNames b \<Longrightarrow> transferOut a = transferOut b"
  by (rule ext) (simp add: transferOut_def accountName_cong [of a b])

lemma transferIn_cong: "accNames a = accNames b \<Longrightarrow> transferIn a = transferIn b"
  by (rule ext) (simp add: transferIn_def accountName_cong [of a b])

lemma journalOf_cong:
  "accNames a = accNames b \<Longrightarrow> incomes s = incomes s' \<Longrightarrow> expenses s = expenses s'
   \<Longrightarrow> transfers s = transfers s' \<Longrightarrow> journalOf a s = journalOf b s'"
  by (simp add: journalOf_def transferOut_cong [of a b] transferIn_cong [of a b])

lemma journalSet_addIncome:
  "journalSet (addIncome n k i s) = insert (incomeEntry (i\<lparr>inc_id := n\<rparr>)) (journalSet s)"
  by (simp add: journalSet_strip addIncome_def Let_def stripId_def incomeEntry_def)

lemma journalSet_addExpense:
  "journalSet (addExpense n k e s) = insert (expenseEntry (e\<lparr>exp_id := n\<rparr>)) (journalSet s)"
  by (simp add: journalSet_strip addExpense_def Let_def stripId_def expenseEntry_def)

lemma journalSet_addTransfer:
  "validTransfer t \<Longrightarrow>
   journalSet (addTransfer n k1 k2 t s)
   = insert (transferOut (accounts s) (t\<lparr>tr_id := n\<rparr>))
       (insert (transferIn (accounts s) (t\<lparr>tr_id := n\<rparr>)) (journalSet s))"
  by (simp add: journalSet_strip addTransfer_def Let_def stripId_def transferOut_def
        transferIn_def validTransfer_def)

lemma filter_strip:
  "stripId ` set (filter (\<lambda>t. \<not> (txn_linkedType t = L \<and> txn_linkedId t = i)) ts)
   = {u \<in> stripId ` set ts. \<not> (txn_linkedType u = L \<and> txn_linkedId u = i)}"
  by (auto simp: stripId_def)

lemma Collect_mem_Un: "{u \<in> A \<union> B. P u} = {u \<in> A. P u} \<union> {u \<in> B. P u}"
  by auto

lemma Collect_image: "{u \<in> f ` A. P u} = f ` {x \<in> A. P (f x)}"
  by auto

lemma entry_link:
  "txn_linkedType (incomeEntry i) = LIncome" "txn_linkedId (incomeEntry i) = inc_id i"
  "txn_linkedType (expenseEntry e) = LExpense" "txn_linkedId (expenseEntry e) = exp_id e"
  "txn_linkedType (transferOut accs t) = LTransfer" "txn_linkedId (transferOut accs t) = tr_id t"
  "txn_linkedType (transferIn accs t) = LTransfer" "txn_linkedId (transferIn accs t) = tr_id t"
  by (simp_all add: incomeEntry_def expenseEntry_def transferOut_def transferIn_def)

lemma jinv_addIncome: assumes "jinv s" shows "jinv (addIncome n k i s)"
proof -
  let ?s = "addIncome n k i s"
  have f: "incomes ?s = i\<lparr>inc_id := n\<rparr> # incomes s" "expenses ?s = expenses s"
      "transfers ?s = transfers s"
      "accounts ?s = adjust (accounts s) (inc_accountId i) (inc_amount i)"
    by (simp_all add: addIncome_def Let_def)
  have "journalOf (accounts ?s) ?s = journalOf (accounts s) ?s"
    by (rule journalOf_cong) (simp_all add: f accNames_adjust)
  also have "\<dots> = insert (incomeEntry (i\<lparr>inc_id := n\<rparr>)) (journalOf (accounts s) s)"
    by (simp add: journalOf_def f)
  finally show ?thesis using assms by (simp add: jinv_def journalSet_addIncome f)
qed

lemma jinv_addExpense: assumes "jinv s" shows "jinv (addExpense n k e s)"
proof -
  let ?s = "addExpense n k e s"
  have f: "expenses ?s = e\<lparr>exp_id := n\<rparr> # expenses s" "incomes ?s = incomes s"
      "transfers ?s = transfers s"
      "accounts ?s = adjust (accounts s) (exp_accountId e) (- exp_amount e)"
    by (simp_all add: addExpense_def Let_def)
  have "journalOf (accounts ?s) ?s = journalOf (accounts s) ?s"
    by (rule journalOf_cong) (simp_all add: f accNames_adjust)
  also have "\<dots> = insert (expenseEntry (e\<lparr>exp_id := n\<rparr>)) (journalOf (accounts s) s)"
    by (simp add: journalOf_def f)
  finally show ?thesis using assms by (simp add: jinv_def journalSet_addExpense f)
qed

lemma jinv_addTransfer: assumes "jinv s" shows "jinv (addTransfer n k1 k2 t s)"
proof (cases "validTransfer t")
  case False
  then have "addTransfer n k1 k2 t s = s"
    by (auto simp: addTransfer_def validTransfer_def)
  with assms show ?thesis by simp
next
  case True
  let ?s = "addTransfer n k1 k2 t s"
  have f: "transfers ?s = t\<lparr>tr_id := n\<rparr> # transfers s" "incomes ?s = incomes s"
      "expenses ?s = expenses s"
      "accounts ?s = adjust (adjust (accounts s) (tr_fromAccountId t) (- tr_amount t))
                       (tr_toAccountId t) (tr_amount t)"
    using True by (simp_all add: addTransfer_def Let_def validTransfer_def)
  have "journalOf (accounts ?s) ?s = journalOf (accounts s) ?s"
    by (rule journalOf_cong) (simp_all add: f accNames_adjust)
  also have "\<dots> = insert (transferOut (accounts s) (t\<lparr>tr_id := n\<rparr>))
                      (insert (transferIn (accounts s) (t\<lparr>tr_id := n\<rparr>))
                         (journalOf (accounts s) s))"
    by (auto simp: journalOf_def f)
  finally have j: "journalOf (accounts ?s) ?s
      = insert (transferOut (accounts s) (t\<lparr>tr_id := n\<rparr>))
          (insert (transferIn (accounts s) (t\<lparr>tr_id := n\<rparr>)) (journalOf (accounts s) s))" .
  have v: "validTransfer (t\<lparr>tr_id := n\<rparr>)" using True by (simp add: validTransfer_def)
  show ?thesis
    using assms v j by (simp add: jinv_def journalSet_addTransfer [OF True] f)
qed

lemma jinv_delIncome: assumes "jinv s" shows "jinv (delIncome i s)"
proof (cases "List.find (\<lambda>x. inc_id x = i) (incomes s)")
  case None
  then have "delIncome i s = s" by (simp add: delIncome_def)
  with assms show ?thesis by simp
next
  case (Some r)
  let ?s = "delIncome i s"
  have f: "incomes ?s = filter (\<lambda>x. inc_id x \<noteq> i) (incomes s)" "expenses ?s = expenses s"
      "transfers ?s = transfers s"
      "accounts ?s = adjust (accounts s) (inc_accountId r) (- inc_amount r)"
      "accountTxns ?s = filter (\<lambda>t. \<not> (txn_linkedType t = LIncome \<and> txn_linkedId t = i))
                          (accountTxns s)"
    using Some by (simp_all add: delIncome_def)
  have "journalSet ?s = {u \<in> journalSet s. \<not> (txn_linkedType u = LIncome \<and> txn_linkedId u = i)}"
    by (simp only: journalSet_strip f filter_strip)
  also have "\<dots> = {u \<in> journalOf (accounts s) s.
                       \<not> (txn_linkedType u = LIncome \<and> txn_linkedId u = i)}"
    using assms by (simp add: jinv_def)
  also have "\<dots> = journalOf (accounts s) ?s"
    by (simp only: journalOf_def Collect_mem_Un Collect_image entry_link f)
       (simp add: Collect_image [symmetric])
  also have "\<dots> = journalOf (accounts ?s) ?s"
    by (rule journalOf_cong) (simp_all add: f accNames_adjust)
  finally show ?thesis using assms by (simp add: jinv_def f)
qed

lemma jinv_delExpense: assumes "jinv s" shows "jinv (delExpense i s)"
proof (cases "List.find (\<lambda>x. exp_id x = i) (expenses s)")
  case None
  then have "delExpense i s = s" by (simp add: delExpense_def)
  with assms show ?thesis by simp
next
  case (Some r)
  let ?s = "delExpense i s"
  have f: "expenses ?s = filter (\<lambda>x. exp_id x \<noteq> i) (expenses s)" "incomes ?s = incomes s"
      "transfers ?s = transfers s"
      "accounts ?s = adjust (accounts s) (exp_accountId r) (exp_amount r)"
      "accountTxns ?s = filter (\<lambda>t. \<not> (txn_linkedType t = LExpense \<and> txn_linkedId t = i))
                          (accountTxns s)"
    using Some by (simp_all add: delExpense_def)
  have "journalSet ?s = {u \<in> journalSet s. \<not> (txn_linkedType u = LExpense \<and> txn_linkedId u = i)}"
    by (simp only: journalSet_strip f filter_strip)
  also have "\<dots> = {u \<in> journalOf (accounts s) s.
                       \<not> (txn_linkedType u = LExpense \<and> txn_linkedId u = i)}"
    using assms by (simp add: jinv_def)
  also have "\<dots> = journalOf (accounts s) ?s"
    by (simp only: journalOf_def Collect_mem_Un Collect_image entry_link f)
       (simp add: Collect_image [symmetric])
  also have "\<dots> = journalOf (accounts ?s) ?s"
    by (rule journalOf_cong) (simp_all add: f accNames_adjust)
  finally show ?thesis using assms by (simp add: jinv_def f)
qed

lemma jinv_delTransfer: assumes "jinv s" shows "jinv (delTransfer i s)"
proof (cases "List.find (\<lambda>x. tr_id x = i) (transfers s)")
  case None
  then have "delTransfer i s = s" by (simp add: delTransfer_def)
  with assms show ?thesis by simp
next
  case (Some r)
  let ?s = "delTransfer i s"
  have f: "transfers ?s = filter (\<lambda>x. tr_id x \<noteq> i) (transfers s)" "incomes ?s = incomes s"
      "expenses ?s = expenses s"
      "accounts ?s = adjust (adjust (accounts s) (tr_fromAccountId r) (tr_amount r))
                       (tr_toAccountId r) (- tr_amount r)"
      "accountTxns ?s = filter (\<lambda>t. \<not> (txn_linkedType t = LTransfer \<and> txn_linkedId t = i))
                          (accountTxns s)"
    using Some by (simp_all add: delTransfer_def)
  have "journalSet ?s = {u \<in> journalSet s. \<not> (txn_linkedType u = LTransfer \<and> txn_linkedId u = i)}"
    by (simp only: journalSet_strip f filter_strip)
  also have "\<dots> = {u \<in> journalOf (accounts s) s.
                       \<not> (txn_linkedType u = LTransfer \<and> txn_linkedId u = i)}"
    using assms by (simp add: jinv_def)
  also have "\<dots> = journalOf (accounts s) ?s"
    by (simp only: journalOf_def Collect_mem_Un Collect_image entry_link f)
       (simp add: Collect_image [symmetric])
  also have "\<dots> = journalOf (accounts ?s) ?s"
    by (rule journalOf_cong) (simp_all add: f accNames_adjust)
  finally show ?thesis using assms by (simp add: jinv_def f)
qed

lemma updateIncome_fields:
  assumes "List.find (\<lambda>x. inc_id x = inc_id e) (incomes s) = Some r"
  shows "incomes (updateIncome e s) = map (\<lambda>x. if inc_id x = inc_id e then e else x) (incomes s)"
    and "expenses (updateIncome e s) = expenses s"
    and "transfers (updateIncome e s) = transfers s"
    and "accNames (accounts (updateIncome e s)) = accNames (accounts s)"
    and "accountTxns (updateIncome e s) = map (editIncomeEntry e) (accountTxns s)"
  using assms
  by (simp_all add: updateIncome_def Let_def accNames_adjust editIncomeEntry_def cong: if_cong)

lemma updateExpense_fields:
  assumes "List.find (\<lambda>x. exp_id x = exp_id e) (expenses s) = Some r"
  shows "expenses (updateExpense e s) = map (\<lambda>x. if exp_id x = exp_id e then e else x) (expenses s)"
    and "incomes (updateExpense e s) = incomes s"
    and "transfers (updateExpense e s) = transfers s"
    and "accNames (accounts (updateExpense e s)) = accNames (accounts s)"
    and "accountTxns (updateExpense e s) = map (editExpenseEntry e) (accountTxns s)"
  using assms
  by (simp_all add: updateExpense_def Let_def accNames_adjust editExpenseEntry_def cong: if_cong)

lemma updateTransfer_fields:
  assumes "List.find (\<lambda>x. tr_id x = tr_id e) (transfers s) = Some r"
  shows "transfers (updateTransfer e s) = map (\<lambda>x. if tr_id x = tr_id e then e else x) (transfers s)"
    and "incomes (updateTransfer e s) = incomes s"
    and "expenses (updateTransfer e s) = expenses s"
    and "accNames (accounts (updateTransfer e s)) = accNames (accounts s)"
    and "accountTxns (updateTransfer e s) = map (editTransferEntry (accounts s) e) (accountTxns s)"
  using assms
  by (simp_all add: updateTransfer_def Let_def accNames_adjust editTransferEntry_def cong: if_cong)

lemma strip_edit:
  "stripId (editIncomeEntry ei t) = editIncomeEntry ei (stripId t)"
  "stripId (editExpenseEntry ee t) = editExpenseEntry ee (stripId t)"
  "stripId (editTransferEntry accs et t) = editTransferEntry accs et (stripId t)"
  by (simp_all add: stripId_def editIncomeEntry_def editExpenseEntry_def editTransferEntry_def)

lemma journalSet_map:
  assumes "\<And>t. stripId (g t) = g (stripId t)"
  shows "stripId ` set (map g ts) = g ` stripId ` set ts"
  using assms by (simp add: image_image)

lemma editIncomeEntry_on:
  "inc_source e \<noteq> [] \<Longrightarrow>
   editIncomeEntry e (incomeEntry x) = incomeEntry (if inc_id x = inc_id e then e else x)"
  "editIncomeEntry e (expenseEntry y) = expenseEntry y"
  "editIncomeEntry e (transferOut accs z) = transferOut accs z"
  "editIncomeEntry e (transferIn accs z) = transferIn accs z"
  by (simp_all add: editIncomeEntry_def incomeEntry_def expenseEntry_def transferOut_def
        transferIn_def strOr_def)

lemma editExpenseEntry_on:
  "exp_category e \<noteq> [] \<Longrightarrow>
   editExpenseEntry e (expenseEntry x) = expenseEntry (if exp_id x = exp_id e then e else x)"
  "editExpenseEntry e (incomeEntry y) = incomeEntry y"
  "editExpenseEntry e (transferOut accs z) = transferOut accs z"
  "editExpenseEntry e (transferIn accs z) = transferIn accs z"
  by (simp_all add: editExpenseEntry_def incomeEntry_def expenseEntry_def transferOut_def
        transferIn_def strOr_def)

lemma editTransferEntry_on:
  "editTransferEntry accs e (transferOut accs x) = transferOut accs (if tr_id x = tr_id e then e else x)"
  "editTransferEntry accs e (transferIn accs x) = transferIn accs (if tr_id x = tr_id e then e else x)"
  "editTransferEntry accs e (incomeEntry y) = incomeEntry y"
  "editTransferEntry accs e (expenseEntry z) = expenseEntry z"
  by (simp_all add: editTransferEntry_def incomeEntry_def expenseEntry_def transferOut_def
        transferIn_def)

lemma jinv_updateIncome:
  assumes "jinv s" and src: "inc_source e \<noteq> []"
  shows "jinv (updateIncome e s)"
proof (cases "List.find (\<lambda>x. inc_id x = inc_id e) (incomes s)")
  case None
  then have "updateIncome e s = s" by (simp add: updateIncome_def)
  with assms show ?thesis by simp
next
  case (Some r)
  let ?s = "updateIncome e s"
  note f = updateIncome_fields [OF Some]
  have "journalSet ?s = editIncomeEntry e ` journalSet s"
    by (simp only: journalSet_strip f journalSet_map [of "editIncomeEntry e", OF strip_edit(1)])
  also have "\<dots> = editIncomeEntry e ` journalOf (accounts s) s"
    using assms by (simp add: jinv_def)
  also have "\<dots> = journalOf (accounts s) ?s"
    by (simp only: journalOf_def f image_Un image_image set_map
          editIncomeEntry_on(1) [OF src] editIncomeEntry_on(2-4))
  also have "\<dots> = journalOf (accounts ?s) ?s"
    by (rule journalOf_cong) (simp_all add: f)
  finally show ?thesis using assms by (simp add: jinv_def f)
qed

lemma jinv_updateExpense:
  assumes "jinv s" and src: "exp_category e \<noteq> []"
  shows "jinv (updateExpense e s)"
proof (cases "List.find (\<lambda>x. exp_id x = exp_id e) (expenses s)")
  case None
  then have "updateExpense e s = s" by (simp add: updateExpense_def)
  with assms show ?thesis by simp
next
  case (Some r)
  let ?s = "updateExpense e s"
  note f = updateExpense_fields [OF Some]
  have "journalSet ?s = editExpenseEntry e ` journalSet s"
    by (simp only: journalSet_strip f journalSet_map [of "editExpenseEntry e", OF strip_edit(2)])
  also have "\<dots> = editExpenseEntry e ` journalOf (accounts s) s"
    using assms by (simp add: jinv_def)
  also have "\<dots> = journalOf (accounts s) ?s"
    by (simp only: journalOf_def f image_Un image_image set_map
          editExpenseEntry_on(1) [OF src] editExpenseEntry_on(2-4))
  also have "\<dots> = journalOf (accounts ?s) ?s"
    by (rule journalOf_cong) (simp_all add: f)
  finally show ?thesis using assms by (simp add: jinv_def f)
qed

lemma jinv_updateTransfer:
  assumes "jinv s" and v: "validTransfer e"
  shows "jinv (updateTransfer e s)"
proof (cases "List.find (\<lambda>x. tr_id x = tr_id e) (transfers s)")
  case None
  then have "updateTransfer e s = s" by (simp add: updateTransfer_def)
  with assms show ?thesis by simp
next
  case (Some r)
  let ?s = "updateTransfer e s"
  note f = updateTransfer_fields [OF Some]
  have "journalSet ?s = editTransferEntry (accounts s) e ` journalSet s"
    by (simp only: journalSet_strip f journalSet_map [of "editTransferEntry (accounts s) e", OF strip_edit(3)])
  also have "\<dots> = editTransferEntry (accounts s) e ` journalOf (accounts s) s"
    using assms by (simp add: jinv_def)
  also have "\<dots> = journalOf (accounts s) ?s"
    by (simp only: journalOf_def f image_Un image_image set_map editTransferEntry_on)
  also have "\<dots> = journalOf (accounts ?s) ?s"
    by (rule journalOf_cong) (simp_all add: f)
  finally show ?thesis using assms v by (auto simp: jinv_def f)
qed

lemma jinv_applyOp: "jinv s \<Longrightarrow> journalOp op \<Longrightarrow> jinv (applyOp op s)"
  by (cases op)
     (simp_all add: jinv_addIncome jinv_delIncome jinv_updateIncome jinv_addExpense
        jinv_delExpense jinv_updateExpense jinv_addTransfer jinv_delTransfer
        jinv_updateTransfer validTransfer_def)

lemma jinv_run: "jinv s \<Longrightarrow> list_all journalOp ops \<Longrightarrow> jinv (run ops s)"
  unfolding run_def
  by (induction ops arbitrary: s) (simp_all add: jinv_applyOp)

lemma jinv_emptyStore: "jinv (emptyStore c)"
  by (simp add: jinv_def journalSet_def journalOf_def emptyStore_def)

lemma accNames_applyOp: "journalOp op \<Longrightarrow> accNames (accounts (applyOp op s)) = accNames (accounts s)"
  by (cases op)
     (simp_all add: addIncome_def delIncome_def updateIncome_def addExpense_def delExpense_def
        updateExpense_def addTransfer_def delTransfer_def updateTransfer_def Let_def
        accNames_adjust split: option.split)

lemma accNames_run:
  "list_all journalOp ops \<Longrightarrow> accNames (accounts (run ops s)) = accNames (accounts s)"
  unfolding run_def
  by (induction ops arbitrary: s) (simp_all add: accNames_applyOp)

lemma replay_incomes:
  "journalSet (fold (\<lambda>i. addIncome (inc_id i) [] i) xs s0) = journalSet s0 \<union> incomeEntry ` set xs
   \<and> accNames (accounts (fold (\<lambda>i. addIncome (inc_id i) [] i) xs s0)) = accNames (accounts s0)"
proof (induction xs arbitrary: s0)
  case Nil
  show ?case by simp
next
  case (Cons x xs)
  have a: "accNames (accounts (addIncome (inc_id x) [] x s0)) = accNames (accounts s0)"
    by (simp add: addIncome_def Let_def accNames_adjust)
  show ?case
    by (simp add: Cons.IH journalSet_addIncome a)
qed

lemma replay_expenses:
  "journalSet (fold (\<lambda>e. addExpense (exp_id e) [] e) xs s0) = journalSet s0 \<union> expenseEntry ` set xs
   \<and> accNames (accounts (fold (\<lambda>e. addExpense (exp_id e) [] e) xs s0)) = accNames (accounts s0)"
proof (induction xs arbitrary: s0)
  case Nil
  show ?case by simp
next
  case (Cons x xs)
  have a: "accNames (accounts (addExpense (exp_id x) [] x s0)) = accNames (accounts s0)"
    by (simp add: addExpense_def Let_def accNames_adjust)
  show ?case
    by (simp add: Cons.IH journalSet_addExpense a)
qed

lemma replay_transfers:
  "\<forall>t\<in>set xs. validTransfer t \<Longrightarrow>
   journalSet (fold (\<lambda>t. addTransfer (tr_id t) [] [] t) xs s0)
     = journalSet s0 \<union> transferOut (accounts s0) ` set xs \<union> transferIn (accounts s0) ` set xs"
proof (induction xs arbitrary: s0)
  case Nil
  show ?case by simp
next
  case (Cons x xs)
  let ?s1 = "addTransfer (tr_id x) [] [] x s0"
  have v: "validTransfer x" and vs: "\<forall>t\<in>set xs. validTransfer t"
    using Cons.prems by simp_all
  have a: "accNames (accounts ?s1) = accNames (accounts s0)"
    by (simp add: addTransfer_def Let_def accNames_adjust)
  have "journalSet (fold (\<lambda>t. addTransfer (tr_id t) [] [] t) (x # xs) s0)
        = journalSet ?s1 \<union> transferOut (accounts ?s1) ` set xs \<union> transferIn (accounts ?s1) ` set xs"
    using Cons.IH [OF vs, of ?s1] by simp
  also have "\<dots> = journalSet ?s1 \<union> transferOut (accounts s0) ` set xs
                     \<union> transferIn (accounts s0) ` set xs"
    by (simp only: transferOut_cong [OF a] transferIn_cong [OF a])
  also have "\<dots> = journalSet s0 \<union> transferOut (accounts s0) ` set (x # xs)
                     \<union> transferIn (accounts s0) ` set (x # xs)"
    by (auto simp: journalSet_addTransfer [OF v])
  finally show ?case .
qed

lemma journalSet_replay:
  assumes "\<forall>t\<in>set (transfers s). validTransfer t"
  shows "journalSet (replay s0 s) = journalSet s0 \<union> journalOf (accounts s0) s"
proof -
  let ?a = "fold (\<lambda>i. addIncome (inc_id i) [] i) (rev (incomes s)) s0"
  let ?b = "fold (\<lambda>e. addExpense (exp_id e) [] e) (rev (expenses s)) ?a"
  have a: "journalSet ?a = journalSet s0 \<union> incomeEntry ` set (incomes s)"
      "accNames (accounts ?a) = accNames (accounts s0)"
    using replay_incomes [of "rev (incomes s)" s0] by simp_all
  have b: "journalSet ?b = journalSet ?a \<union> expenseEntry ` set (expenses s)"
      "accNames (accounts ?b) = accNames (accounts ?a)"
    using replay_expenses [of "rev (expenses s)" ?a] by simp_all
  have n: "accNames (accounts ?b) = accNames (accounts s0)"
    using a(2) b(2) by simp
  have v: "\<forall>t\<in>set (rev (transfers s)). validTransfer t" using assms by simp
  have "journalSet (replay s0 s)
        = journalSet ?b \<union> transferOut (accounts ?b) ` set (rev (transfers s))
          \<union> transferIn (accounts ?b) ` set (rev (transfers s))"
    unfolding replay_def by (rule replay_transfers [OF v])
  also have "\<dots> = journalSet ?b \<union> transferOut (accounts s0) ` set (transfers s)
          \<union> transferIn (accounts s0) ` set (transfers s)"
    by (simp only: transferOut_cong [OF n] transferIn_cong [OF n] set_rev)
  finally show ?thesis
    by (simp add: a(1) b(1) journalOf_def Un_assoc)
qed

text \<open>
  C1, as amended. Take any finite history of add, update and delete operations on incomes,
  expenses and transfers, run from the empty store, in which every income or expense edit
  carries a non-empty source or category and every transfer edit carries a record with two
  different accounts and a positive amount. Then the journal of the resulting store, as a
  set of entries without their ids, is the journal obtained by replaying the surviving
  incomes, expenses and transfers from the empty store.
\<close>

theorem journal_derivable:
  assumes "list_all journalOp ops"
  shows "journalSet (run ops (emptyStore c))
         = journalSet (replay (emptyStore c) (run ops (emptyStore c)))"
proof -
  let ?e = "emptyStore c" and ?s = "run ops (emptyStore c)"
  have inv: "jinv ?s" using jinv_emptyStore assms by (rule jinv_run)
  have names: "accNames (accounts ?s) = accNames (accounts ?e)"
    using assms by (rule accNames_run)
  have e: "journalSet ?e = {}" by (simp add: journalSet_def emptyStore_def)
  have "journalSet ?s = journalOf (accounts ?s) ?s" using inv by (simp add: jinv_def)
  also have "\<dots> = journalOf (accounts ?e) ?s"
    using names by (rule journalOf_cong) simp_all
  also have "\<dots> = journalSet (replay ?e ?s)"
    using inv by (simp add: journalSet_replay jinv_def e)
  finally show ?thesis .
qed

text \<open>
  An edit with an empty source keeps the old note of the journal entry, while the replay
  writes the default note: after adding the income \<open>Salary\<close> and editing its source to
  the empty string, the journal entry reads \<open>Salary\<close> and the replayed one \<open>Income\<close>.
\<close>

theorem journal_derivable_counterexample:
  "list_all ledgerOp blankSourceEdit
   \<and> map txn_notes (accountTxns (run blankSourceEdit (emptyStore ''A''))) = [Some ''Salary'']
   \<and> map txn_notes
        (accountTxns (replay (emptyStore ''A'') (run blankSourceEdit (emptyStore ''A''))))
       = [Some ''Income'']
   \<and> journalSet (run blankSourceEdit (emptyStore ''A''))
       \<noteq> journalSet (replay (emptyStore ''A'') (run blankSourceEdit (emptyStore ''A'')))"
  by (simp add: blankSourceEdit_def run_def replay_def emptyStore_def salary_def addIncome_def
        updateIncome_def journalSet_def adjust_def toFixed2_def strOr_def Let_def)

theorem journal_derivable_witness:
  "list_all journalOp mixedHistory
   \<and> map txn_linkedId (accountTxns (run mixedHistory (emptyStore ''A'')))
       = [''i2'', ''t1'', ''t1'', ''e1'']
   \<and> journalSet (run mixedHistory (emptyStore ''A''))
       = journalSet (replay (emptyStore ''A'') (run mixedHistory (emptyStore ''A'')))"
proof -
  have h: "list_all journalOp mixedHistory"
    by (simp add: mixedHistory_def salaryRaise_def rentRise_def rent_def bToA_def aToB_def
          salary_def)
  have l: "map txn_linkedId (accountTxns (run mixedHistory (emptyStore ''A'')))
       = [''i2'', ''t1'', ''t1'', ''e1'']"
    by (simp add: mixedHistory_def run_def emptyStore_def salary_def rent_def aToB_def
          salaryRaise_def bToA_def rentRise_def selfTransfer_def addIncome_def addExpense_def
          addTransfer_def delIncome_def delTransfer_def updateIncome_def updateExpense_def
          updateTransfer_def Let_def)
  show ?thesis using h l journal_derivable [OF h, of "''A''"] by simp
qed

section \<open>Derived balances against incremental balances\<close>

lemma fold_zero: "(\<And>x. mapGet0 m x = 0) \<Longrightarrow> mapGet0 (fold (\<lambda>a m. m(acc_id a \<mapsto> 0)) accs m) x = 0"
  by (induction accs arbitrary: m) (simp_all add: mapGet0_def)

lemma fold_income:
  "mapGet0 (fold deriveStep_income incs m) x = mapGet0 m x + sum_list (map (incomeEffect x) incs)"
  by (induction incs arbitrary: m)
     (simp_all add: deriveStep_income_def mapGet0_def incomeEffect_def)

lemma fold_expense:
  "mapGet0 (fold deriveStep_expense exps m) x = mapGet0 m x + sum_list (map (expenseEffect x) exps)"
  by (induction exps arbitrary: m)
     (simp_all add: deriveStep_expense_def mapGet0_def expenseEffect_def)

lemma step_transfer: "mapGet0 (deriveStep_transfer t m) x = mapGet0 m x + transferEffect x t"
  by (simp add: deriveStep_transfer_def mapGet0_def transferEffect_def Let_def)

lemma fold_transfer:
  "mapGet0 (fold deriveStep_transfer trs m) x = mapGet0 m x + sum_list (map (transferEffect x) trs)"
  by (induction trs arbitrary: m) (simp_all add: step_transfer)

lemma step_investment: "mapGet0 (deriveStep_investment v m) x = mapGet0 m x + investmentEffect x v"
  by (simp add: deriveStep_investment_def mapGet0_def investmentEffect_def split: option.split)

lemma fold_investment:
  "mapGet0 (fold deriveStep_investment invs m) x
   = mapGet0 m x + sum_list (map (investmentEffect x) invs)"
  by (induction invs arbitrary: m) (simp_all add: step_investment)

lemma deriveBalances_netOf:
  "deriveBalances accs incs exps trs invs
   = map (\<lambda>a. a\<lparr>acc_balance := toFixed2 (netOf incs exps trs invs (acc_id a))\<rparr>) accs"
proof -
  have z: "\<And>x. mapGet0 (fold (\<lambda>a m. m(acc_id a \<mapsto> 0)) accs Map.empty) x = 0"
    by (rule fold_zero) (simp add: mapGet0_def)
  show ?thesis
    by (simp add: deriveBalances_def Let_def fold_investment fold_transfer fold_expense
          fold_income z netOf_def)
qed

lemma isCents_sum_list: "(\<forall>x\<in>set xs. isCents (g x)) \<Longrightarrow> isCents (sum_list (map g xs))"
  by (induction xs) (simp_all add: isCents_0 isCents_add)

lemma isCents_effects:
  "isCents (inc_amount i) \<Longrightarrow> isCents (incomeEffect x i)"
  "isCents (exp_amount e) \<Longrightarrow> isCents (expenseEffect x e)"
  "isCents (tr_amount t) \<Longrightarrow> isCents (transferEffect x t)"
  "isCents (inv_amount v) \<Longrightarrow> isCents (investmentEffect x v)"
  by (simp_all add: incomeEffect_def expenseEffect_def transferEffect_def investmentEffect_def
        isCents_0 isCents_minus isCents_diff split: option.split)

lemma isCents_net: assumes "centsRecords s" shows "isCents (net s x)"
proof -
  have "isCents (sum_list (map (incomeEffect x) (incomes s)))"
       "isCents (sum_list (map (expenseEffect x) (expenses s)))"
       "isCents (sum_list (map (transferEffect x) (transfers s)))"
       "isCents (sum_list (map (investmentEffect x) (investments s)))"
    using assms by (auto simp: centsRecords_def intro!: isCents_sum_list isCents_effects)
  then show ?thesis by (simp add: net_def netOf_def isCents_add)
qed

lemma tracks_adjust:
  assumes "tracks accs N" and "isCents d"
  shows "tracks (adjust accs x d) (bump N x d)"
  using assms by (auto simp: tracks_def adjust_def bump_def toFixed2_add isCents_add isCents_0)

lemma tracks_eq: "tracks accs N \<Longrightarrow> (\<And>y. N y = M y) \<Longrightarrow> tracks accs M"
proof -
  assume t: "tracks accs N" and e: "\<And>y. N y = M y"
  from e have "N = M" by (rule ext)
  with t show ?thesis by simp
qed

lemma tracks_net: "binv s \<Longrightarrow> tracks (accounts s) (net s)"
  by (simp add: binv_def)

lemma bump_transfer:
  "bump (bump N (tr_fromAccountId t) (- tr_amount t)) (tr_toAccountId t) (tr_amount t) y
   = N y + transferEffect y t"
  by (simp add: bump_def transferEffect_def)

lemma bump_transfer_back:
  "bump (bump N (tr_fromAccountId t) (tr_amount t)) (tr_toAccountId t) (- tr_amount t) y
   = N y - transferEffect y t"
  by (simp add: bump_def transferEffect_def)

lemma find_Some_set: "List.find P xs = Some r \<Longrightarrow> r \<in> set xs \<and> P r"
  by (induction xs) (auto split: if_splits)

lemma sum_filter_distinct:
  fixes g :: "'a \<Rightarrow> real"
  shows "distinct (map f xs) \<Longrightarrow> List.find (\<lambda>x. f x = i) xs = Some r \<Longrightarrow>
    sum_list (map g (filter (\<lambda>x. f x \<noteq> i) xs)) = sum_list (map g xs) - g r"
proof (induction xs)
  case Nil
  then show ?case by simp
next
  case (Cons a xs)
  show ?case
  proof (cases "f a = i")
    case True
    with Cons.prems have r: "r = a" and "i \<notin> f ` set xs" by auto
    then have "filter (\<lambda>x. f x \<noteq> i) xs = xs" by (auto simp: filter_id_conv)
    with True r show ?thesis by simp
  next
    case False
    with Cons show ?thesis by simp
  qed
qed

lemma sum_replace_distinct:
  fixes g :: "'a \<Rightarrow> real"
  shows "distinct (map f xs) \<Longrightarrow> List.find (\<lambda>x. f x = i) xs = Some r \<Longrightarrow>
    sum_list (map g (map (\<lambda>x. if f x = i then e else x) xs)) = sum_list (map g xs) - g r + g e"
proof (induction xs)
  case Nil
  then show ?case by simp
next
  case (Cons a xs)
  show ?case
  proof (cases "f a = i")
    case True
    with Cons.prems have r: "r = a" and "i \<notin> f ` set xs" by auto
    then have "map (\<lambda>x. if f x = i then e else x) xs = xs" by (induction xs) auto
    with True r show ?thesis by simp
  next
    case False
    with Cons show ?thesis by simp
  qed
qed

lemma distinct_replace:
  "distinct (map f xs) \<Longrightarrow> f e = i \<Longrightarrow> distinct (map f (map (\<lambda>x. if f x = i then e else x) xs))"
proof -
  assume d: "distinct (map f xs)" and e: "f e = i"
  have "map f (map (\<lambda>x. if f x = i then e else x) xs) = map f xs"
    using e by (induction xs) auto
  with d show ?thesis by (simp only:)
qed

lemma distinct_filter_map: "distinct (map f xs) \<Longrightarrow> distinct (map f (filter P xs))"
  by (simp add: distinct_map_filter)

lemma binv_addIncome:
  assumes b: "binv s" and n: "n \<notin> inc_id ` set (incomes s)" and c: "isCents (inc_amount i)"
  shows "binv (addIncome n k i s)"
proof -
  let ?s = "addIncome n k i s"
  have f: "incomes ?s = i\<lparr>inc_id := n\<rparr> # incomes s" "expenses ?s = expenses s"
      "transfers ?s = transfers s" "investments ?s = investments s"
      "accounts ?s = adjust (accounts s) (inc_accountId i) (inc_amount i)"
    by (simp_all add: addIncome_def Let_def)
  have "tracks (accounts ?s) (bump (net s) (inc_accountId i) (inc_amount i))"
    unfolding f by (rule tracks_adjust [OF tracks_net [OF b] c])
  then have "tracks (accounts ?s) (net ?s)"
    by (rule tracks_eq) (simp add: bump_def net_def netOf_def f incomeEffect_def)
  then show ?thesis
    using b n c by (simp add: binv_def centsRecords_def distinctIds_def f)
qed

lemma binv_addExpense:
  assumes b: "binv s" and n: "n \<notin> exp_id ` set (expenses s)" and c: "isCents (exp_amount e)"
  shows "binv (addExpense n k e s)"
proof -
  let ?s = "addExpense n k e s"
  have f: "expenses ?s = e\<lparr>exp_id := n\<rparr> # expenses s" "incomes ?s = incomes s"
      "transfers ?s = transfers s" "investments ?s = investments s"
      "accounts ?s = adjust (accounts s) (exp_accountId e) (- exp_amount e)"
    by (simp_all add: addExpense_def Let_def)
  have "tracks (accounts ?s) (bump (net s) (exp_accountId e) (- exp_amount e))"
    unfolding f by (rule tracks_adjust [OF tracks_net [OF b] isCents_minus [OF c]])
  then have "tracks (accounts ?s) (net ?s)"
    by (rule tracks_eq) (simp add: bump_def net_def netOf_def f expenseEffect_def)
  then show ?thesis
    using b n c by (simp add: binv_def centsRecords_def distinctIds_def f)
qed

lemma binv_addTransfer:
  assumes b: "binv s" and n: "n \<notin> tr_id ` set (transfers s)" and c: "isCents (tr_amount t)"
  shows "binv (addTransfer n k1 k2 t s)"
proof (cases "tr_fromAccountId t = tr_toAccountId t \<or> tr_amount t \<le> 0")
  case True
  then have "addTransfer n k1 k2 t s = s" by (simp add: addTransfer_def)
  with b show ?thesis by simp
next
  case False
  let ?s = "addTransfer n k1 k2 t s"
  have f: "transfers ?s = t\<lparr>tr_id := n\<rparr> # transfers s" "incomes ?s = incomes s"
      "expenses ?s = expenses s" "investments ?s = investments s"
      "accounts ?s = adjust (adjust (accounts s) (tr_fromAccountId t) (- tr_amount t))
                       (tr_toAccountId t) (tr_amount t)"
    using False by (simp_all add: addTransfer_def Let_def)
  have "tracks (accounts ?s)
          (bump (bump (net s) (tr_fromAccountId t) (- tr_amount t)) (tr_toAccountId t) (tr_amount t))"
    unfolding f
    by (rule tracks_adjust [OF tracks_adjust [OF tracks_net [OF b] isCents_minus [OF c]] c])
  then have "tracks (accounts ?s) (net ?s)"
    by (rule tracks_eq) (simp add: bump_def net_def netOf_def f transferEffect_def)
  then show ?thesis
    using b n c by (simp add: binv_def centsRecords_def distinctIds_def f)
qed

lemma binv_addInvestment:
  assumes b: "binv s" and n: "n \<notin> inv_id ` set (investments s)" and c: "isCents (inv_amount v)"
  shows "binv (addInvestment n v s)"
proof -
  let ?s = "addInvestment n v s"
  have f: "investments ?s = v\<lparr>inv_id := n\<rparr> # investments s" "incomes ?s = incomes s"
      "expenses ?s = expenses s" "transfers ?s = transfers s"
    by (simp_all add: addInvestment_def Let_def)
  have d: "(if inv_amount v > 0 then - \<bar>inv_amount v\<bar> else \<bar>inv_amount v\<bar>) = - inv_amount v"
    by simp
  have t: "tracks (accounts ?s) (net ?s)"
  proof (cases "truthy (inv_accountId v)")
    case False
    then have a: "accounts ?s = accounts s"
      by (cases "inv_accountId v") (simp_all add: addInvestment_def Let_def)
    show ?thesis unfolding a
      using False
      by (intro tracks_eq [OF tracks_net [OF b]])
         (cases "inv_accountId v", simp_all add: net_def netOf_def f investmentEffect_def)
  next
    case True
    then obtain x where x: "inv_accountId v = Some x" "x \<noteq> []"
      by (cases "inv_accountId v") simp_all
    then have a: "accounts ?s = adjust (accounts s) x (- inv_amount v)"
      by (simp add: addInvestment_def Let_def d)
    have "tracks (accounts ?s) (bump (net s) x (- inv_amount v))"
      unfolding a by (rule tracks_adjust [OF tracks_net [OF b] isCents_minus [OF c]])
    then show ?thesis
      by (rule tracks_eq) (simp add: bump_def net_def netOf_def f investmentEffect_def x)
  qed
  then show ?thesis
    using b n c by (simp add: binv_def centsRecords_def distinctIds_def f)
qed

lemma binv_delIncome: assumes b: "binv s" shows "binv (delIncome i s)"
proof (cases "List.find (\<lambda>x. inc_id x = i) (incomes s)")
  case None
  then have "delIncome i s = s" by (simp add: delIncome_def)
  with b show ?thesis by simp
next
  case (Some r)
  let ?s = "delIncome i s"
  have f: "incomes ?s = filter (\<lambda>x. inc_id x \<noteq> i) (incomes s)" "expenses ?s = expenses s"
      "transfers ?s = transfers s" "investments ?s = investments s"
      "accounts ?s = adjust (accounts s) (inc_accountId r) (- inc_amount r)"
    using Some by (simp_all add: delIncome_def)
  have d: "distinct (map inc_id (incomes s))" using b by (simp add: binv_def distinctIds_def)
  have c: "isCents (inc_amount r)"
    using b find_Some_set [OF Some] by (simp add: binv_def centsRecords_def)
  have "tracks (accounts ?s) (bump (net s) (inc_accountId r) (- inc_amount r))"
    unfolding f by (rule tracks_adjust [OF tracks_net [OF b] isCents_minus [OF c]])
  then have "tracks (accounts ?s) (net ?s)"
    by (rule tracks_eq)
       (simp add: bump_def net_def netOf_def f sum_filter_distinct [OF d Some] incomeEffect_def)
  then show ?thesis
    using b by (simp add: binv_def centsRecords_def distinctIds_def f distinct_map_filter)
qed

lemma binv_delExpense: assumes b: "binv s" shows "binv (delExpense i s)"
proof (cases "List.find (\<lambda>x. exp_id x = i) (expenses s)")
  case None
  then have "delExpense i s = s" by (simp add: delExpense_def)
  with b show ?thesis by simp
next
  case (Some r)
  let ?s = "delExpense i s"
  have f: "expenses ?s = filter (\<lambda>x. exp_id x \<noteq> i) (expenses s)" "incomes ?s = incomes s"
      "transfers ?s = transfers s" "investments ?s = investments s"
      "accounts ?s = adjust (accounts s) (exp_accountId r) (exp_amount r)"
    using Some by (simp_all add: delExpense_def)
  have d: "distinct (map exp_id (expenses s))" using b by (simp add: binv_def distinctIds_def)
  have c: "isCents (exp_amount r)"
    using b find_Some_set [OF Some] by (simp add: binv_def centsRecords_def)
  have "tracks (accounts ?s) (bump (net s) (exp_accountId r) (exp_amount r))"
    unfolding f by (rule tracks_adjust [OF tracks_net [OF b] c])
  then have "tracks (accounts ?s) (net ?s)"
    by (rule tracks_eq)
       (simp add: bump_def net_def netOf_def f sum_filter_distinct [OF d Some] expenseEffect_def)
  then show ?thesis
    using b by (simp add: binv_def centsRecords_def distinctIds_def f distinct_map_filter)
qed

lemma binv_delTransfer: assumes b: "binv s" shows "binv (delTransfer i s)"
proof (cases "List.find (\<lambda>x. tr_id x = i) (transfers s)")
  case None
  then have "delTransfer i s = s" by (simp add: delTransfer_def)
  with b show ?thesis by simp
next
  case (Some r)
  let ?s = "delTransfer i s"
  have f: "transfers ?s = filter (\<lambda>x. tr_id x \<noteq> i) (transfers s)" "incomes ?s = incomes s"
      "expenses ?s = expenses s" "investments ?s = investments s"
      "accounts ?s = adjust (adjust (accounts s) (tr_fromAccountId r) (tr_amount r))
                       (tr_toAccountId r) (- tr_amount r)"
    using Some by (simp_all add: delTransfer_def)
  have d: "distinct (map tr_id (transfers s))" using b by (simp add: binv_def distinctIds_def)
  have c: "isCents (tr_amount r)"
    using b find_Some_set [OF Some] by (simp add: binv_def centsRecords_def)
  have "tracks (accounts ?s)
          (bump (bump (net s) (tr_fromAccountId r) (tr_amount r)) (tr_toAccountId r) (- tr_amount r))"
    unfolding f
    by (rule tracks_adjust [OF tracks_adjust [OF tracks_net [OF b] c] isCents_minus [OF c]])
  then have "tracks (accounts ?s) (net ?s)"
    by (rule tracks_eq)
       (simp add: bump_def net_def netOf_def f sum_filter_distinct [OF d Some] transferEffect_def)
  then show ?thesis
    using b by (simp add: binv_def centsRecords_def distinctIds_def f distinct_map_filter)
qed

lemma binv_delInvestment:
  assumes b: "binv s"
    and ok: "\<forall>v\<in>set (investments s). inv_id v = i \<and> truthy (inv_accountId v) \<longrightarrow> 0 \<le> inv_amount v"
  shows "binv (delInvestment i s)"
proof (cases "List.find (\<lambda>x. inv_id x = i) (investments s)")
  case None
  then have "delInvestment i s = s" by (simp add: delInvestment_def)
  with b show ?thesis by simp
next
  case (Some r)
  let ?s = "delInvestment i s"
  have f: "investments ?s = filter (\<lambda>x. inv_id x \<noteq> i) (investments s)" "incomes ?s = incomes s"
      "expenses ?s = expenses s" "transfers ?s = transfers s"
    using Some by (simp_all add: delInvestment_def)
  have d: "distinct (map inv_id (investments s))" using b by (simp add: binv_def distinctIds_def)
  have c: "isCents (inv_amount r)"
    using b find_Some_set [OF Some] by (simp add: binv_def centsRecords_def)
  have t: "tracks (accounts ?s) (net ?s)"
  proof (cases "truthy (inv_accountId r)")
    case False
    then have a: "accounts ?s = accounts s"
      using Some by (cases "inv_accountId r") (simp_all add: delInvestment_def)
    show ?thesis unfolding a
      using False
      by (intro tracks_eq [OF tracks_net [OF b]])
         (cases "inv_accountId r",
          simp_all add: net_def netOf_def f sum_filter_distinct [OF d Some] investmentEffect_def)
  next
    case True
    then obtain x where x: "inv_accountId r = Some x" "x \<noteq> []"
      by (cases "inv_accountId r") simp_all
    have "0 \<le> inv_amount r" using ok find_Some_set [OF Some] True by blast
    then have e: "(if inv_amount r > 0 then inv_amount r else - inv_amount r) = inv_amount r"
      by simp
    have a: "accounts ?s = adjust (accounts s) x (inv_amount r)"
      using Some x by (simp add: delInvestment_def e)
    have "tracks (accounts ?s) (bump (net s) x (inv_amount r))"
      unfolding a by (rule tracks_adjust [OF tracks_net [OF b] c])
    then show ?thesis
      by (rule tracks_eq)
         (simp add: bump_def net_def netOf_def f sum_filter_distinct [OF d Some]
            investmentEffect_def x)
  qed
  then show ?thesis
    using b by (simp add: binv_def centsRecords_def distinctIds_def f distinct_map_filter)
qed

lemma binv_updateIncome:
  assumes b: "binv s" and c: "isCents (inc_amount e)"
  shows "binv (updateIncome e s)"
proof (cases "List.find (\<lambda>x. inc_id x = inc_id e) (incomes s)")
  case None
  then have "updateIncome e s = s" by (simp add: updateIncome_def)
  with b show ?thesis by simp
next
  case (Some r)
  let ?s = "updateIncome e s"
  have f: "incomes ?s = map (\<lambda>x. if inc_id x = inc_id e then e else x) (incomes s)"
      "expenses ?s = expenses s" "transfers ?s = transfers s" "investments ?s = investments s"
    using Some by (simp_all add: updateIncome_def Let_def)
  have d: "distinct (map inc_id (incomes s))" using b by (simp add: binv_def distinctIds_def)
  have cr: "isCents (inc_amount r)"
    using b find_Some_set [OF Some] by (simp add: binv_def centsRecords_def)
  have n: "\<And>y. net ?s y = net s y - incomeEffect y r + incomeEffect y e"
    by (simp only: net_def netOf_def f sum_replace_distinct [OF d Some])
  have t: "tracks (accounts ?s) (net ?s)"
  proof (cases "inc_accountId r = inc_accountId e")
    case True
    then have a: "accounts ?s
        = adjust (accounts s) (inc_accountId e) (inc_amount e - inc_amount r)"
      using Some by (simp add: updateIncome_def Let_def)
    have "tracks (accounts ?s) (bump (net s) (inc_accountId e) (inc_amount e - inc_amount r))"
      unfolding a by (rule tracks_adjust [OF tracks_net [OF b] isCents_diff [OF c cr]])
    then show ?thesis
    proof (rule tracks_eq)
      fix y
      show "bump (net s) (inc_accountId e) (inc_amount e - inc_amount r) y = net ?s y"
        using True by (simp add: bump_def n incomeEffect_def)
    qed
  next
    case False
    then have a: "accounts ?s
        = adjust (adjust (accounts s) (inc_accountId r) (- inc_amount r))
            (inc_accountId e) (inc_amount e)"
      using Some by (simp add: updateIncome_def Let_def)
    have "tracks (accounts ?s)
            (bump (bump (net s) (inc_accountId r) (- inc_amount r)) (inc_accountId e) (inc_amount e))"
      unfolding a
      by (rule tracks_adjust [OF tracks_adjust [OF tracks_net [OF b] isCents_minus [OF cr]] c])
    then show ?thesis
      by (rule tracks_eq) (simp add: bump_def n incomeEffect_def)
  qed
  have d': "distinct (map inc_id (incomes ?s))"
    unfolding f by (rule distinct_replace [OF d refl])
  have cs: "centsRecords s" and ds: "distinctIds s" using b by (simp_all add: binv_def)
  from cs have "\<forall>i\<in>set (incomes s). isCents (inc_amount i)" by (simp add: centsRecords_def)
  with c have c': "\<forall>i\<in>set (incomes ?s). isCents (inc_amount i)" by (auto simp: f(1))
  have "centsRecords ?s" using cs c' by (simp add: centsRecords_def f(2-4))
  moreover have "distinctIds ?s" using ds d' by (simp add: distinctIds_def f(2-4))
  ultimately show ?thesis using t by (simp add: binv_def)
qed

lemma binv_updateExpense:
  assumes b: "binv s" and c: "isCents (exp_amount e)"
  shows "binv (updateExpense e s)"
proof (cases "List.find (\<lambda>x. exp_id x = exp_id e) (expenses s)")
  case None
  then have "updateExpense e s = s" by (simp add: updateExpense_def)
  with b show ?thesis by simp
next
  case (Some r)
  let ?s = "updateExpense e s"
  have f: "expenses ?s = map (\<lambda>x. if exp_id x = exp_id e then e else x) (expenses s)"
      "incomes ?s = incomes s" "transfers ?s = transfers s" "investments ?s = investments s"
    using Some by (simp_all add: updateExpense_def Let_def)
  have d: "distinct (map exp_id (expenses s))" using b by (simp add: binv_def distinctIds_def)
  have cr: "isCents (exp_amount r)"
    using b find_Some_set [OF Some] by (simp add: binv_def centsRecords_def)
  have n: "\<And>y. net ?s y = net s y - expenseEffect y r + expenseEffect y e"
    by (simp only: net_def netOf_def f sum_replace_distinct [OF d Some])
  have t: "tracks (accounts ?s) (net ?s)"
  proof (cases "exp_accountId r = exp_accountId e")
    case True
    then have a: "accounts ?s
        = adjust (accounts s) (exp_accountId e) (- (exp_amount e - exp_amount r))"
      using Some by (simp add: updateExpense_def Let_def)
    have "tracks (accounts ?s) (bump (net s) (exp_accountId e) (- (exp_amount e - exp_amount r)))"
      unfolding a
      by (rule tracks_adjust [OF tracks_net [OF b] isCents_minus [OF isCents_diff [OF c cr]]])
    then show ?thesis
    proof (rule tracks_eq)
      fix y
      show "bump (net s) (exp_accountId e) (- (exp_amount e - exp_amount r)) y = net ?s y"
        using True by (simp add: bump_def n expenseEffect_def)
    qed
  next
    case False
    then have a: "accounts ?s
        = adjust (adjust (accounts s) (exp_accountId r) (exp_amount r))
            (exp_accountId e) (- exp_amount e)"
      using Some by (simp add: updateExpense_def Let_def)
    have "tracks (accounts ?s)
            (bump (bump (net s) (exp_accountId r) (exp_amount r)) (exp_accountId e) (- exp_amount e))"
      unfolding a
      by (rule tracks_adjust [OF tracks_adjust [OF tracks_net [OF b] cr] isCents_minus [OF c]])
    then show ?thesis
      by (rule tracks_eq) (simp add: bump_def n expenseEffect_def)
  qed
  have d': "distinct (map exp_id (expenses ?s))"
    unfolding f by (rule distinct_replace [OF d refl])
  have cs: "centsRecords s" and ds: "distinctIds s" using b by (simp_all add: binv_def)
  from cs have "\<forall>i\<in>set (expenses s). isCents (exp_amount i)" by (simp add: centsRecords_def)
  with c have c': "\<forall>i\<in>set (expenses ?s). isCents (exp_amount i)" by (auto simp: f(1))
  have "centsRecords ?s" using cs c' by (simp add: centsRecords_def f(2-4))
  moreover have "distinctIds ?s" using ds d' by (simp add: distinctIds_def f(2-4))
  ultimately show ?thesis using t by (simp add: binv_def)
qed

lemma binv_updateTransfer:
  assumes b: "binv s" and c: "isCents (tr_amount e)"
  shows "binv (updateTransfer e s)"
proof (cases "List.find (\<lambda>x. tr_id x = tr_id e) (transfers s)")
  case None
  then have "updateTransfer e s = s" by (simp add: updateTransfer_def)
  with b show ?thesis by simp
next
  case (Some r)
  let ?s = "updateTransfer e s"
  have f: "transfers ?s = map (\<lambda>x. if tr_id x = tr_id e then e else x) (transfers s)"
      "incomes ?s = incomes s" "expenses ?s = expenses s" "investments ?s = investments s"
    using Some by (simp_all add: updateTransfer_def Let_def)
  have a: "accounts ?s
      = adjust (adjust (adjust (adjust (accounts s) (tr_fromAccountId r) (tr_amount r))
            (tr_toAccountId r) (- tr_amount r)) (tr_fromAccountId e) (- tr_amount e))
          (tr_toAccountId e) (tr_amount e)"
    using Some by (simp add: updateTransfer_def Let_def)
  have d: "distinct (map tr_id (transfers s))" using b by (simp add: binv_def distinctIds_def)
  have cr: "isCents (tr_amount r)"
    using b find_Some_set [OF Some] by (simp add: binv_def centsRecords_def)
  have n: "\<And>y. net ?s y = net s y - transferEffect y r + transferEffect y e"
    by (simp only: net_def netOf_def f sum_replace_distinct [OF d Some])
  have t1: "tracks (adjust (adjust (accounts s) (tr_fromAccountId r) (tr_amount r))
              (tr_toAccountId r) (- tr_amount r))
            (bump (bump (net s) (tr_fromAccountId r) (tr_amount r))
              (tr_toAccountId r) (- tr_amount r))"
    by (rule tracks_adjust [OF tracks_adjust [OF tracks_net [OF b] cr] isCents_minus [OF cr]])
  have "tracks (accounts ?s)
          (bump (bump (bump (bump (net s) (tr_fromAccountId r) (tr_amount r))
             (tr_toAccountId r) (- tr_amount r)) (tr_fromAccountId e) (- tr_amount e))
             (tr_toAccountId e) (tr_amount e))"
    unfolding a
    by (rule tracks_adjust [OF tracks_adjust [OF t1 isCents_minus [OF c]] c])
  then have t: "tracks (accounts ?s) (net ?s)"
    by (rule tracks_eq) (simp only: bump_transfer bump_transfer_back n)
  have d': "distinct (map tr_id (transfers ?s))"
    unfolding f by (rule distinct_replace [OF d refl])
  have cs: "centsRecords s" and ds: "distinctIds s" using b by (simp_all add: binv_def)
  from cs have "\<forall>i\<in>set (transfers s). isCents (tr_amount i)" by (simp add: centsRecords_def)
  with c have c': "\<forall>i\<in>set (transfers ?s). isCents (tr_amount i)" by (auto simp: f(1))
  have "centsRecords ?s" using cs c' by (simp add: centsRecords_def f(2-4))
  moreover have "distinctIds ?s" using ds d' by (simp add: distinctIds_def f(2-4))
  ultimately show ?thesis using t by (simp add: binv_def)
qed

lemma sum_list_zero: "(\<forall>x\<in>set xs. g x = (0::real)) \<Longrightarrow> sum_list (map g xs) = 0"
  by (induction xs) simp_all

lemma net_unreferenced: assumes "\<not> referenced s n" shows "net s n = 0"
proof -
  have "sum_list (map (incomeEffect n) (incomes s)) = 0"
    using assms by (intro sum_list_zero) (auto simp: referenced_def incomeEffect_def)
  moreover have "sum_list (map (expenseEffect n) (expenses s)) = 0"
    using assms by (intro sum_list_zero) (auto simp: referenced_def expenseEffect_def)
  moreover have "sum_list (map (transferEffect n) (transfers s)) = 0"
    using assms by (intro sum_list_zero) (auto simp: referenced_def transferEffect_def)
  moreover have "sum_list (map (investmentEffect n) (investments s)) = 0"
    using assms
    by (intro sum_list_zero)
       (auto simp: referenced_def investmentEffect_def image_iff split: option.split)
  ultimately show ?thesis by (simp add: net_def netOf_def)
qed

lemma binv_addAccount:
  assumes b: "binv s" and z: "acc_balance a = 0" and r: "\<not> referenced s n"
  shows "binv (addAccount n a s)"
proof -
  have "net (addAccount n a s) = net s"
    by (rule ext) (simp add: net_def addAccount_def)
  then show ?thesis
    using b z net_unreferenced [OF r]
    by (auto simp: binv_def tracks_def centsRecords_def distinctIds_def addAccount_def)
qed

lemma binv_delAccount: assumes b: "binv s" shows "binv (delAccount i s)"
proof -
  have "net (delAccount i s) = net s"
    by (rule ext) (simp add: net_def delAccount_def)
  then show ?thesis
    using b
    by (auto simp: binv_def tracks_def centsRecords_def distinctIds_def delAccount_def)
qed

lemma binv_applyOp: "binv s \<Longrightarrow> okOp s op \<Longrightarrow> binv (applyOp op s)"
  by (cases op)
     (simp_all add: binv_addIncome binv_delIncome binv_updateIncome binv_addExpense
        binv_delExpense binv_updateExpense binv_addTransfer binv_delTransfer
        binv_updateTransfer binv_addInvestment binv_delInvestment binv_addAccount
        binv_delAccount)

lemma binv_run: "binv s \<Longrightarrow> okHistory s ops \<Longrightarrow> binv (run ops s)"
  unfolding run_def
  by (induction ops arbitrary: s) (simp_all add: binv_applyOp)

lemma binv_emptyStore: "binv (emptyStore c)"
  by (simp add: binv_def tracks_def centsRecords_def distinctIds_def emptyStore_def net_def
        netOf_def isCents_0)

lemma binv_derive:
  assumes "binv s"
  shows "deriveBalances (accounts s) (incomes s) (expenses s) (transfers s) (investments s)
         = accounts s"
proof -
  have "\<forall>a\<in>set (accounts s). toFixed2 (net s (acc_id a)) = acc_balance a"
    using assms by (auto simp: binv_def tracks_def isCents_def)
  then have "map (\<lambda>a. a\<lparr>acc_balance := toFixed2 (net s (acc_id a))\<rparr>) (accounts s) = accounts s"
    by (intro map_idI) simp
  then show ?thesis by (simp add: deriveBalances_netOf net_def)
qed

text \<open>
  C5, as amended. Run any history from the empty store in which all amounts are whole cents,
  new records get unused ids, accounts are created with balance \<open>0\<close> under ids no record
  refers to, and no account-linked investment with a negative amount is deleted. Then
  recomputing every balance from the surviving incomes, expenses, transfers and
  account-linked investments, rounded to two digits, gives exactly the accounts that the
  mutators maintained step by step.
\<close>

theorem derived_equals_incremental:
  assumes "okHistory (emptyStore c) ops"
  shows "deriveStore (run ops (emptyStore c)) = accounts (run ops (emptyStore c))"
  unfolding deriveStore_def by (rule binv_derive [OF binv_run [OF binv_emptyStore assms]])

text \<open>
  With amounts below a cent the two disagree, because the mutators round after every step
  and the recomputation rounds once: three incomes of \<open>0.004\<close> leave the balance at \<open>0\<close>
  step by step, and the recomputation gives \<open>0.01\<close>.
\<close>

theorem derived_equals_incremental_counterexample:
  "map inc_accountId (incomes (run subCentIncomes (emptyStore ''A''))) = [''A'', ''A'', ''A'']
   \<and> map acc_id (accounts (run subCentIncomes (emptyStore ''A''))) = [''A'']
   \<and> map acc_balance (accounts (run subCentIncomes (emptyStore ''A''))) = [0]
   \<and> map acc_balance (deriveStore (run subCentIncomes (emptyStore ''A''))) = [1 / 100]"
  by (simp add: subCentIncomes_def run_def emptyStore_def salary_def addIncome_def adjust_def
        toFixed2_def Let_def deriveStore_def deriveBalances_def deriveStep_income_def
        mapGet0_def)

lemmas sample_defs = emptyStore_def salary_def rent_def aToB_def fundBuy_def fundSale_def
  salaryRaise_def rentRise_def selfTransfer_def accountA_def accountB_def

lemmas mutator_defs = addIncome_def delIncome_def updateIncome_def addExpense_def delExpense_def
  updateExpense_def addTransfer_def delTransfer_def updateTransfer_def addInvestment_def
  delInvestment_def addAccount_def delAccount_def adjust_def toFixed2_def accountName_def
  strOr_def Let_def

theorem derived_equals_incremental_witness:
  "okHistory (emptyStore ''A'') longHistory
   \<and> map acc_balance (accounts (run longHistory (emptyStore ''A''))) = [- 362.25, 0]
   \<and> deriveStore (run longHistory (emptyStore ''A'')) = accounts (run longHistory (emptyStore ''A''))"
proof -
  have h: "okHistory (emptyStore ''A'') longHistory"
    by (simp add: longHistory_def sample_defs mutator_defs referenced_def isCents_def)
  have v: "map acc_balance (accounts (run longHistory (emptyStore ''A''))) = [- 362.25, 0]"
    by (simp add: longHistory_def run_def sample_defs mutator_defs)
  show ?thesis
    using h v derived_equals_incremental [OF h] by simp
qed

text \<open>
  The condition on deleted investments is not idle. \<open>delInvestment\<close> adds the magnitude
  of the amount back whatever its sign, so deleting a withdrawal of \<open>50\<close> (amount \<open>-50\<close>),
  which had raised the balance from \<open>100\<close> to \<open>150\<close>, raises it again to \<open>200\<close>.
\<close>

lemma delInvestment_withdrawal:
  "map acc_balance (accounts twoAccounts) = [100, 50]
   \<and> map acc_balance (accounts (addInvestment ''v2'' fundSale twoAccounts)) = [150, 50]
   \<and> map acc_balance
        (accounts (delInvestment ''v2'' (addInvestment ''v2'' fundSale twoAccounts)))
       = [200, 50]"
  by (simp add: twoAccounts_def sample_defs mutator_defs)

section \<open>Month keys and printed numbers\<close>

lemmas rec_defs = recurrenceOccursThisMonth_def recEnabled_def anchorISO_def recEnd_def
  recPeriod_def inRangeMonth_def monthsDiff_def nthNumber_def jsNumber_def isDigit_def
  digitVal_def ymKey_def jsRem_def strOr_def Let_def

lemmas date_defs = parseDate_def getFullYear_def getMonth_def getDate_def addMinutes_def
  shiftDays_def daysInMonth_def leapYear_def yearString_def digits4_def digits2_def
  digitChar_def firstOfMonthFromYM_def projectedDate_def dayOrOne_def projectedRow_def
  monthExpensesProjectedOnly_def monthExpensesReal_def signature_def

lemma addDays_numeral: "addDays (numeral k) c = addDays (pred_numeral k) (nextDay c)"
  by (simp add: numeral_eq_Suc)

lemma subDays_numeral: "subDays (numeral k) c = subDays (pred_numeral k) (prevDay c)"
  by (simp add: numeral_eq_Suc)

lemmas date_eval = date_defs addDays_numeral subDays_numeral


subsection \<open>Digits\<close>

lemma digit_cases:
  "0 \<le> k \<Longrightarrow> k \<le> 9 \<Longrightarrow>
   k = 0 \<or> k = 1 \<or> k = 2 \<or> k = 3 \<or> k = 4 \<or> k = 5 \<or> k = 6 \<or> k = 7 \<or> k = 8 \<or> k = (9::int)"
  by arith

lemma of_char_digitChar:
  assumes "0 \<le> k" "k \<le> 9"
  shows "(of_char (digitChar k) :: nat) = nat (48 + k)"
  using digit_cases [OF assms] by (auto simp: digitChar_def)

lemma digit_range: "0 \<le> (n::int) mod 10" "(n::int) mod 10 \<le> 9"
  by simp_all

lemma digitChar_props:
  assumes "0 \<le> k" "k \<le> 9"
  shows "isDigit (digitChar k)" "digitVal (digitChar k) = k" "digitChar k \<noteq> CHR ''-''"
  using digit_cases [OF assms] by (auto simp: digitChar_def isDigit_def digitVal_def)

lemma digitChar_less:
  assumes "0 \<le> j" "j \<le> 9" "0 \<le> k" "k \<le> 9"
  shows "digitChar j < digitChar k \<longleftrightarrow> j < k"
  unfolding less_char_def of_char_digitChar [OF assms(1,2)] of_char_digitChar [OF assms(3,4)]
  using assms by auto

lemma digitChar_eq:
  assumes "0 \<le> j" "j \<le> 9" "0 \<le> k" "k \<le> 9"
  shows "digitChar j = digitChar k \<longleftrightarrow> j = k"
proof
  assume "digitChar j = digitChar k"
  then have "(of_char (digitChar j) :: nat) = of_char (digitChar k)" by simp
  then show "j = k"
    unfolding of_char_digitChar [OF assms(1,2)] of_char_digitChar [OF assms(3,4)]
    using assms by auto
qed simp

lemma lex_pair:
  fixes x r x' r' :: int
  assumes "0 \<le> r" "r < n" "0 \<le> r'" "r' < n"
  shows "(x < x' \<or> x = x' \<and> r < r') \<longleftrightarrow> n * x + r < n * x' + r'"
proof -
  have "x < x' \<Longrightarrow> n * x + r < n * x' + r'"
  proof -
    assume "x < x'"
    then have "x + 1 \<le> x'" by simp
    moreover have "0 \<le> n" using assms by linarith
    ultimately have "n * (x + 1) \<le> n * x'" by (rule mult_left_mono)
    then show ?thesis using assms by (simp add: algebra_simps)
  qed
  moreover have "x' < x \<Longrightarrow> n * x' + r' < n * x + r"
  proof -
    assume "x' < x"
    then have "x' + 1 \<le> x" by simp
    moreover have "0 \<le> n" using assms by linarith
    ultimately have "n * (x' + 1) \<le> n * x" by (rule mult_left_mono)
    then show ?thesis using assms by (simp add: algebra_simps)
  qed
  ultimately show ?thesis by (cases x x' rule: linorder_cases) auto
qed

lemma eq_pair:
  fixes x r x' r' :: int
  assumes "0 \<le> r" "r < n" "0 \<le> r'" "r' < n"
  shows "(x = x' \<and> r = r') \<longleftrightarrow> n * x + r = n * x' + r'"
  using lex_pair [OF assms, of x x'] lex_pair [OF assms(3,4,1,2), of x' x] by auto

lemma split100: "(a::int) mod 100 = 10 * (a div 10 mod 10) + a mod 10"
  using zmod_zmult2_eq [of 10 a 10] by simp

lemma split10000: "(a::int) mod 10000 = 100 * (a div 100 mod 100) + a mod 100"
  using zmod_zmult2_eq [of 100 a 100] by simp

lemma digits2_less: "digits2 a < digits2 b \<longleftrightarrow> a mod 100 < b mod 100"
proof -
  have "digits2 a < digits2 b \<longleftrightarrow>
        a div 10 mod 10 < b div 10 mod 10
        \<or> a div 10 mod 10 = b div 10 mod 10 \<and> a mod 10 < b mod 10"
    by (simp add: digits2_def digitChar_less digitChar_eq digit_range)
  also have "\<dots> \<longleftrightarrow> a mod 100 < b mod 100"
    unfolding split100 by (rule lex_pair) simp_all
  finally show ?thesis .
qed

lemma digits2_eq: "digits2 a = digits2 b \<longleftrightarrow> a mod 100 = b mod 100"
proof -
  have "digits2 a = digits2 b \<longleftrightarrow>
        a div 10 mod 10 = b div 10 mod 10 \<and> a mod 10 = b mod 10"
    by (simp add: digits2_def digitChar_eq digit_range)
  also have "\<dots> \<longleftrightarrow> a mod 100 = b mod 100"
    unfolding split100 by (rule eq_pair) simp_all
  finally show ?thesis .
qed

lemma less_append_same_length:
  fixes xs :: "('a::linorder) list"
  shows "length xs = length xs' \<Longrightarrow>
         (xs @ ys < xs' @ ys' \<longleftrightarrow> xs < xs' \<or> xs = xs' \<and> ys < ys')"
  by (induction xs xs' rule: list_induct2) auto

lemma length_digits: "length (digits2 n) = 2" "length (digits4 n) = 4"
  by (simp_all add: digits2_def digits4_def)

lemma digits4_less: "digits4 a < digits4 b \<longleftrightarrow> a mod 10000 < b mod 10000"
proof -
  have "digits4 a < digits4 b \<longleftrightarrow>
        (a div 100) mod 100 < (b div 100) mod 100
        \<or> (a div 100) mod 100 = (b div 100) mod 100 \<and> a mod 100 < b mod 100"
    unfolding digits4_def
    by (simp add: less_append_same_length length_digits digits2_less digits2_eq)
  also have "\<dots> \<longleftrightarrow> a mod 10000 < b mod 10000"
    unfolding split10000 by (rule lex_pair) simp_all
  finally show ?thesis .
qed

lemma digits4_eq: "digits4 a = digits4 b \<longleftrightarrow> a mod 10000 = b mod 10000"
proof -
  have "digits4 a = digits4 b \<longleftrightarrow>
        (a div 100) mod 100 = (b div 100) mod 100 \<and> a mod 100 = b mod 100"
    unfolding digits4_def by (simp add: length_digits digits2_eq)
  also have "\<dots> \<longleftrightarrow> a mod 10000 = b mod 10000"
    unfolding split10000 by (rule eq_pair) simp_all
  finally show ?thesis .
qed

lemma monthKey_less:
  assumes "validMonth y1 m1" "validMonth y2 m2"
  shows "monthKey y1 m1 < monthKey y2 m2 \<longleftrightarrow> y1 * 12 + m1 < y2 * 12 + m2"
proof -
  have "monthKey y1 m1 < monthKey y2 m2 \<longleftrightarrow>
        y1 mod 10000 < y2 mod 10000
        \<or> y1 mod 10000 = y2 mod 10000 \<and> m1 mod 100 < m2 mod 100"
    unfolding monthKey_def
    by (simp add: less_append_same_length length_digits digits4_less digits4_eq digits2_less)
  also have "\<dots> \<longleftrightarrow> y1 * 12 + m1 < y2 * 12 + m2"
    using assms unfolding validMonth_def by auto
  finally show ?thesis .
qed

lemma monthKey_eq:
  assumes "validMonth y1 m1" "validMonth y2 m2"
  shows "monthKey y1 m1 = monthKey y2 m2 \<longleftrightarrow> y1 * 12 + m1 = y2 * 12 + m2"
proof -
  have "monthKey y1 m1 = monthKey y2 m2 \<longleftrightarrow>
        y1 mod 10000 = y2 mod 10000 \<and> m1 mod 100 = m2 mod 100"
    unfolding monthKey_def by (simp add: length_digits digits4_eq digits2_eq)
  also have "\<dots> \<longleftrightarrow> y1 = y2 \<and> m1 - 1 = m2 - 1"
    using assms unfolding validMonth_def by auto
  also have "\<dots> \<longleftrightarrow> 12 * y1 + (m1 - 1) = 12 * y2 + (m2 - 1)"
    using assms unfolding validMonth_def by (intro eq_pair) simp_all
  also have "\<dots> \<longleftrightarrow> y1 * 12 + m1 = y2 * 12 + m2" by auto
  finally show ?thesis .
qed

lemma monthKey_le:
  assumes "validMonth y1 m1" "validMonth y2 m2"
  shows "monthKey y1 m1 \<le> monthKey y2 m2 \<longleftrightarrow> y1 * 12 + m1 \<le> y2 * 12 + m2"
  unfolding le_less monthKey_less [OF assms] monthKey_eq [OF assms] ..


subsection \<open>Parsing keys\<close>

lemma decimal_digits2: "foldl (\<lambda>a c. 10 * a + digitVal c) 0 (digits2 n) = n mod 100"
  by (simp add: digits2_def digitChar_props digit_range split100)

lemma all_digits: "list_all isDigit (digits2 n)" "list_all isDigit (digits4 n)"
  by (simp_all add: digits4_def digits2_def digitChar_props digit_range)

lemma jsNumber_digits2: "jsNumber (digits2 n) = Some (n mod 100)"
  by (simp add: jsNumber_def all_digits decimal_digits2)

lemma jsNumber_digits4: "jsNumber (digits4 n) = Some (n mod 10000)"
proof -
  have "foldl (\<lambda>a c. 10 * a + digitVal c) 0 (digits4 n)
        = 100 * (n div 100 mod 100) + n mod 100"
    by (simp add: digits4_def digits2_def digitChar_props digit_range split100)
  then show ?thesis by (simp add: jsNumber_def all_digits split10000)
qed

lemma no_dash: "CHR ''-'' \<notin> set (digits2 n)" "CHR ''-'' \<notin> set (digits4 n)"
proof -
  have "\<And>k. digitChar (k mod 10) \<noteq> CHR ''-''"
    by (rule digitChar_props(3)) (simp_all add: digit_range)
  then have "\<And>k. CHR ''-'' \<noteq> digitChar (k mod 10)" by metis
  then show "CHR ''-'' \<notin> set (digits2 n)" "CHR ''-'' \<notin> set (digits4 n)"
    by (simp_all add: digits4_def digits2_def)
qed

lemma splitOn_no_sep: "c \<notin> set xs \<Longrightarrow> splitOn c xs = [xs]"
  by (induction xs) auto

lemma splitOn_sep: "c \<notin> set xs \<Longrightarrow> splitOn c (xs @ c # ys) = xs # splitOn c ys"
  by (induction xs) auto

lemma split_monthKey: "splitOn CHR ''-'' (monthKey y m) = [digits4 y, digits2 m]"
  by (simp add: monthKey_def splitOn_sep splitOn_no_sep no_dash)

lemma ymKey_isoDate: "ymKey (isoDate y m d) = monthKey y m"
  by (simp add: ymKey_def isoDate_def monthKey_def digits4_def digits2_def)

lemma ymKey_monthKey: "ymKey (monthKey y m) = monthKey y m"
  by (simp add: ymKey_def monthKey_def digits4_def digits2_def)

lemma monthKey_not_empty: "monthKey y m \<noteq> []"
  by (simp add: monthKey_def digits4_def digits2_def)

lemma monthsDiff_monthKey:
  assumes "validMonth ya ma" "validMonth yb mb"
  shows "monthsDiff (monthKey ya ma) (monthKey yb mb) = Some ((yb - ya) * 12 + (mb - ma))"
  using assms
  by (simp add: monthsDiff_def nthNumber_def split_monthKey jsNumber_digits4 jsNumber_digits2
        validMonth_def)


subsection \<open>The occurrence test on month keys\<close>

lemma jsRem_zero: "0 < b \<Longrightarrow> jsRem a b = 0 \<longleftrightarrow> a mod b = 0"
proof -
  assume b: "0 < b"
  have "jsRem a b = 0 \<longleftrightarrow> a = 0 \<or> \<bar>a\<bar> mod b = 0"
    using b by (auto simp: jsRem_def sgn_if)
  also have "\<dots> \<longleftrightarrow> b dvd \<bar>a\<bar>" by (auto simp: mod_eq_0_iff_dvd)
  also have "\<dots> \<longleftrightarrow> a mod b = 0" by (simp add: mod_eq_0_iff_dvd)
  finally show ?thesis .
qed

lemma inRangeMonth_keys:
  assumes va: "validMonth ya ma" and vb: "validMonth yb mb"
    and en: "en = None \<or> en = Some []
             \<or> (en = Some (isoDate ye me de) \<and> validMonth ye me \<and> yb * 12 + mb \<le> ye * 12 + me)"
  shows "inRangeMonth (monthKey yb mb) (isoDate ya ma da) en \<longleftrightarrow> ya * 12 + ma \<le> yb * 12 + mb"
proof -
  have start: "monthKey ya ma \<le> monthKey yb mb \<longleftrightarrow> ya * 12 + ma \<le> yb * 12 + mb"
    by (rule monthKey_le [OF va vb])
  from en consider "en = None" | "en = Some []"
    | "en = Some (isoDate ye me de)" "validMonth ye me" "yb * 12 + mb \<le> ye * 12 + me"
    by blast
  then show ?thesis
  proof cases
    case 1
    then show ?thesis
      by (simp add: inRangeMonth_def Let_def ymKey_isoDate monthKey_not_empty start)
  next
    case 2
    then show ?thesis
      by (simp add: inRangeMonth_def Let_def ymKey_isoDate monthKey_not_empty start)
  next
    case 3
    have ne: "isoDate ye me de \<noteq> []" by (simp add: isoDate_def monthKey_def)
    have "\<not> monthKey ye me < monthKey yb mb"
      using monthKey_less [OF 3(2) vb] 3(3) by simp
    then show ?thesis
      using 3(1) ne
      by (simp add: inRangeMonth_def Let_def ymKey_isoDate monthKey_not_empty start)
  qed
qed

text \<open>
  C8. Let the expense be recurrence-enabled, its anchor date (the start of the recurrence,
  else the date of the expense) a date \<open>YYYY-MM-DD\<close>, the target month a key \<open>YYYY-MM\<close> not
  before the anchor month, and the end of the recurrence absent, empty, or a date whose
  month is not before the target month. With \<open>diff\<close> the number of whole months from the
  anchor month to the target month, the occurrence test is true exactly when the period is
  monthly, or quarterly with \<open>diff mod 3 = 0\<close>, or annually with \<open>diff mod 12 = 0\<close>.
\<close>

theorem recurrence_occurs_iff:
  assumes enabled: "recEnabled e"
    and anchor: "anchorISO e = isoDate ya ma da"
    and va: "validMonth ya ma" and vb: "validMonth yb mb"
    and notBefore: "ya * 12 + ma \<le> yb * 12 + mb"
    and notAfter: "recEnd e = None \<or> recEnd e = Some []
       \<or> (recEnd e = Some (isoDate ye me de) \<and> validMonth ye me
           \<and> yb * 12 + mb \<le> ye * 12 + me)"
  shows "recurrenceOccursThisMonth e (monthKey yb mb) \<longleftrightarrow>
           recPeriod e = monthly
           \<or> recPeriod e = quarterly \<and> ((yb - ya) * 12 + (mb - ma)) mod 3 = 0
           \<or> recPeriod e = annually \<and> ((yb - ya) * 12 + (mb - ma)) mod 12 = 0"
proof -
  let ?diff = "(yb - ya) * 12 + (mb - ma)"
  have r: "inRangeMonth (monthKey yb mb) (anchorISO e) (recEnd e)"
    unfolding anchor using inRangeMonth_keys [OF va vb notAfter] notBefore by simp
  have d: "monthsDiff (ymKey (anchorISO e)) (monthKey yb mb) = Some ?diff"
    unfolding anchor ymKey_isoDate by (rule monthsDiff_monthKey [OF va vb])
  have nn: "\<not> ?diff < 0" using notBefore by (simp add: algebra_simps)
  show ?thesis
    unfolding recurrenceOccursThisMonth_def
    using enabled r d nn
    by (cases "recPeriod e") (simp_all add: jsRem_zero)
qed

text \<open>
  The quarterly rent anchored in 2024-01 occurs in 2024-01, 2024-04 and 2024-07 and does not
  occur in 2024-02 or 2024-03.
\<close>

theorem recurrence_occurs_iff_witness:
  "recurrenceOccursThisMonth quarterlyRent ''2024-01''
   \<and> recurrenceOccursThisMonth quarterlyRent ''2024-04''
   \<and> recurrenceOccursThisMonth quarterlyRent ''2024-07''
   \<and> \<not> recurrenceOccursThisMonth quarterlyRent ''2024-02''
   \<and> \<not> recurrenceOccursThisMonth quarterlyRent ''2024-03''"
proof -
  have h: "recEnabled quarterlyRent" "anchorISO quarterlyRent = isoDate 2024 1 5"
      "recEnd quarterlyRent = None" "recPeriod quarterlyRent = quarterly"
    by (simp_all add: recEnabled_def anchorISO_def recEnd_def recPeriod_def quarterlyRent_def
          rent_def strOr_def isoDate_def monthKey_def digits4_def digits2_def digitChar_def)
  have k: "monthKey 2024 1 = ''2024-01''" "monthKey 2024 2 = ''2024-02''"
      "monthKey 2024 3 = ''2024-03''" "monthKey 2024 4 = ''2024-04''"
      "monthKey 2024 7 = ''2024-07''"
    by (simp_all add: monthKey_def digits4_def digits2_def digitChar_def)
  have v: "validMonth 2024 1" "validMonth 2024 2" "validMonth 2024 3" "validMonth 2024 4"
      "validMonth 2024 7"
    by (simp_all add: validMonth_def)
  show ?thesis
    using recurrence_occurs_iff [OF h(1,2) v(1) v(1), of 0 0 0]
      recurrence_occurs_iff [OF h(1,2) v(1) v(2), of 0 0 0]
      recurrence_occurs_iff [OF h(1,2) v(1) v(3), of 0 0 0]
      recurrence_occurs_iff [OF h(1,2) v(1) v(4), of 0 0 0]
      recurrence_occurs_iff [OF h(1,2) v(1) v(5), of 0 0 0]
    by (simp add: h(3,4) k)
qed

section \<open>Projected rows\<close>

subsection \<open>Dates on a host whose zone is UTC\<close>



















text \<open>
  Away from UTC the date of a row is a day early. The row is built as local midnight and
  printed in UTC: three hours east of UTC, local midnight of 2024-03-05 is 21:00 UTC of
  2024-03-04. Five hours west of UTC, midnight UTC of 2024-01-05 is still the 4th in local
  time, so the day read from the expense is already 4.
\<close>

lemma projection_off_utc:
  "map_option (map exp_date) (monthExpensesProjectedOnly 180 [rent] ''2024-03'')
     = Some [''2024-03-04'']
   \<and> map_option (map exp_date) (monthExpensesProjectedOnly (- 300) [rent] ''2024-03'')
     = Some [''2024-03-04'']"
  by (simp add: rec_defs date_eval rent_def)

section \<open>Goal statistics\<close>

lemma foldl_contrib:
  "foldl (\<lambda>s c. s + pc_amount c) a cs = a + sum_list (map pc_amount cs)"
  by (induction cs arbitrary: a) simp_all

lemma toFixed2_near: "\<bar>toFixed2 x - x\<bar> \<le> 1 / 200"
proof (cases "x < 0")
  case True
  define n where "n = real_of_int \<lfloor>(- x) * 100 + 1 / 2\<rfloor>"
  have "n \<le> (- x) * 100 + 1 / 2" "(- x) * 100 + 1 / 2 < n + 1"
    unfolding n_def by linarith+
  moreover have "toFixed2 x = - (n / 100)"
    using True by (simp add: toFixed2_def n_def)
  ultimately show ?thesis by linarith
next
  case False
  define n where "n = real_of_int \<lfloor>x * 100 + 1 / 2\<rfloor>"
  have "n \<le> x * 100 + 1 / 2" "x * 100 + 1 / 2 < n + 1"
    unfolding n_def by linarith+
  moreover have "toFixed2 x = n / 100"
    using False by (simp add: toFixed2_def n_def)
  ultimately show ?thesis by linarith
qed

lemma toFixed2_idem: "isCents (toFixed2 x)"
  by (simp add: isCents_def toFixed2_def)

lemma days_per_month:
  "(x / real_of_int msPerDay) / 30.4 = x / (1000 * 60 * 60 * 24 * 30.4)"
proof -
  have "(x / real_of_int msPerDay) / 30.4 = x / (real_of_int msPerDay * 30.4)"
    by (rule divide_divide_eq_left)
  also have "real_of_int msPerDay * 30.4 = 1000 * 60 * 60 * 24 * 30.4"
    by (simp add: msPerDay_def)
  finally show ?thesis .
qed

lemma months_six:
  assumes lo: "152 * msPerDay < t - now" and hi: "5 * (t - now) \<le> 912 * msPerDay"
  shows "\<lceil>real_of_int (t - now) / (1000 * 60 * 60 * 24 * 30.4)\<rceil> = 6"
proof -
  let ?x = "real_of_int (t - now) / (1000 * 60 * 60 * 24 * 30.4)"
  have a: "real_of_int (152 * msPerDay) < real_of_int (t - now)"
    using lo by (simp only: of_int_less_iff)
  have b: "real_of_int (5 * (t - now)) \<le> real_of_int (912 * msPerDay)"
    using hi by (simp only: of_int_le_iff)
  have "5 < ?x" using a by (simp add: msPerDay_def field_simps)
  moreover have "?x \<le> 6" using b by (simp add: msPerDay_def field_simps)
  ultimately show ?thesis by (simp add: ceiling_eq_iff)
qed

text \<open>
  C9, as amended. For a goal whose target date is a date \<open>YYYY-MM-DD\<close> of an existing day,
  at the time \<open>now\<close>: \<open>contributed\<close> is the sum of the contributions to that goal,
  \<open>remaining\<close> is \<open>max 0 (targetAmount - contributed)\<close>, \<open>monthsLeft\<close> is
  \<open>max 1 \<lceil>days / 30.4\<rceil>\<close> with \<open>days\<close> the time from \<open>now\<close> to midnight UTC of the target
  date, in days, and \<open>requiredMonthly\<close> is a whole number of cents within half a cent of
  \<open>remaining / monthsLeft\<close>. In particular a goal with target amount 1200 and contributed
  200, whose target date lies more than 152 and at most 182.4 days ahead (more than five
  and at most six months of 30.4 days), has remaining 1000, six months left and
  requiredMonthly 166.67.
\<close>

theorem goal_statistics:
  assumes t: "getTime (parseDate (prj_targetDate p)) = Some t"
  shows "ps_contributed (projectStat now contribs p)
           = sum_list (map pc_amount (filter (\<lambda>c. pc_projectId c = prj_id p) contribs))
       \<and> ps_remaining (projectStat now contribs p)
           = max 0 (prj_targetAmount p - ps_contributed (projectStat now contribs p))
       \<and> (\<exists>k r. ps_monthsLeft (projectStat now contribs p) = Some k
              \<and> k = max 1 \<lceil>(real_of_int (t - now) / real_of_int msPerDay) / 30.4\<rceil>
              \<and> ps_requiredMonthly (projectStat now contribs p) = Some r
              \<and> isCents r
              \<and> \<bar>r - ps_remaining (projectStat now contribs p) / of_int k\<bar> \<le> 1 / 200)
       \<and> (prj_targetAmount p = 1200 \<and> ps_contributed (projectStat now contribs p) = 200
            \<and> 152 * msPerDay < t - now \<and> 5 * (t - now) \<le> 912 * msPerDay
          \<longrightarrow> ps_remaining (projectStat now contribs p) = 1000
              \<and> ps_monthsLeft (projectStat now contribs p) = Some 6
              \<and> ps_requiredMonthly (projectStat now contribs p) = Some 166.67)"
proof (intro conjI impI)
  show "ps_contributed (projectStat now contribs p)
           = sum_list (map pc_amount (filter (\<lambda>c. pc_projectId c = prj_id p) contribs))"
    by (simp add: projectStat_def Let_def contributionsOf_def foldl_contrib)
  show "ps_remaining (projectStat now contribs p)
           = max 0 (prj_targetAmount p - ps_contributed (projectStat now contribs p))"
    by (simp add: projectStat_def Let_def)
  show "\<exists>k r. ps_monthsLeft (projectStat now contribs p) = Some k
              \<and> k = max 1 \<lceil>(real_of_int (t - now) / real_of_int msPerDay) / 30.4\<rceil>
              \<and> ps_requiredMonthly (projectStat now contribs p) = Some r
              \<and> isCents r
              \<and> \<bar>r - ps_remaining (projectStat now contribs p) / of_int k\<bar> \<le> 1 / 200"
  proof (intro exI conjI)
    show "ps_monthsLeft (projectStat now contribs p)
            = Some (max 1 \<lceil>real_of_int (t - now) / (1000 * 60 * 60 * 24 * 30.4)\<rceil>)"
      using t by (simp add: projectStat_def Let_def monthsLeftAt_def)
    show "max 1 \<lceil>real_of_int (t - now) / (1000 * 60 * 60 * 24 * 30.4)\<rceil>
            = max 1 \<lceil>(real_of_int (t - now) / real_of_int msPerDay) / 30.4\<rceil>"
      by (simp only: days_per_month)
    show "ps_requiredMonthly (projectStat now contribs p)
            = Some (toFixed2 (ps_remaining (projectStat now contribs p)
                     / of_int (max 1 \<lceil>real_of_int (t - now) / (1000 * 60 * 60 * 24 * 30.4)\<rceil>)))"
      using t by (simp add: projectStat_def Let_def monthsLeftAt_def)
    show "isCents (toFixed2 (ps_remaining (projectStat now contribs p)
                     / of_int (max 1 \<lceil>real_of_int (t - now) / (1000 * 60 * 60 * 24 * 30.4)\<rceil>)))"
      by (rule toFixed2_idem)
    show "\<bar>toFixed2 (ps_remaining (projectStat now contribs p)
                     / of_int (max 1 \<lceil>real_of_int (t - now) / (1000 * 60 * 60 * 24 * 30.4)\<rceil>))
            - ps_remaining (projectStat now contribs p)
                / of_int (max 1 \<lceil>real_of_int (t - now) / (1000 * 60 * 60 * 24 * 30.4)\<rceil>)\<bar>
          \<le> 1 / 200"
      by (rule toFixed2_near)
  qed
next
  assume h: "prj_targetAmount p = 1200 \<and> ps_contributed (projectStat now contribs p) = 200
            \<and> 152 * msPerDay < t - now \<and> 5 * (t - now) \<le> 912 * msPerDay"
  then have c: "foldl (\<lambda>s c. s + pc_amount c) 0 (contributionsOf contribs p) = 200"
    by (simp add: projectStat_def Let_def)
  from h have "\<lceil>real_of_int (t - now) / (1000 * 60 * 60 * 24 * 30.4)\<rceil> = 6"
    by (intro months_six) simp_all
  then have m: "monthsLeftAt now (prj_targetDate p) = Some 6"
    unfolding monthsLeftAt_def t by simp
  show "ps_remaining (projectStat now contribs p) = 1000"
    using h c by (simp add: projectStat_def Let_def)
  show "ps_monthsLeft (projectStat now contribs p) = Some 6"
    using m by (simp add: projectStat_def Let_def)
  show "ps_requiredMonthly (projectStat now contribs p) = Some 166.67"
    using h c m by (simp add: projectStat_def Let_def toFixed2_def)
qed

text \<open>
  Six calendar months are not always six months of 30.4 days: from 2024-07-01, midnight
  UTC, to the target date 2025-01-01 there are 184 days, which count as seven months, and
  the goal with target amount 1200 and contributed 200 requires 142.86 a month.
\<close>

theorem goal_statistics_counterexample:
  "getTime (parseDate ''2024-07-01'') = Some 1719792000000
   \<and> getTime (parseDate (prj_targetDate houseFund)) = Some (1719792000000 + 184 * msPerDay)
   \<and> ps_contributed (projectStat 1719792000000 [firstDeposit] houseFund) = 200
   \<and> ps_remaining (projectStat 1719792000000 [firstDeposit] houseFund) = 1000
   \<and> ps_monthsLeft (projectStat 1719792000000 [firstDeposit] houseFund) = Some 7
   \<and> ps_requiredMonthly (projectStat 1719792000000 [firstDeposit] houseFund) = Some 142.86
   \<and> ps_requiredMonthly (projectStat 1719792000000 [firstDeposit] houseFund) \<noteq> Some 166.67"
  by (simp add: projectStat_def Let_def contributionsOf_def monthsLeftAt_def houseFund_def
      firstDeposit_def msPerDay_def toFixed2_def parseDate_def jsNumber_def isDigit_def
      digitVal_def daysInMonth_def leapYear_def)

text \<open>
  The same goal some 181.6 days before its target date.
\<close>

theorem goal_statistics_witness:
  "getTime (parseDate (prj_targetDate houseFund)) = Some 1735689600000
   \<and> ps_contributed (projectStat 1720000000000 [firstDeposit] houseFund) = 200
   \<and> ps_remaining (projectStat 1720000000000 [firstDeposit] houseFund) = 1000
   \<and> ps_monthsLeft (projectStat 1720000000000 [firstDeposit] houseFund) = Some 6
   \<and> ps_requiredMonthly (projectStat 1720000000000 [firstDeposit] houseFund) = Some 166.67"
proof -
  have t: "getTime (parseDate (prj_targetDate houseFund)) = Some 1735689600000"
    by (simp add: houseFund_def parseDate_def jsNumber_def isDigit_def digitVal_def
        daysInMonth_def leapYear_def)
  have c: "ps_contributed (projectStat 1720000000000 [firstDeposit] houseFund) = 200"
    by (simp add: projectStat_def Let_def contributionsOf_def houseFund_def firstDeposit_def)
  from goal_statistics [OF t, of 1720000000000 "[firstDeposit]"] c t show ?thesis
    by (simp add: houseFund_def msPerDay_def)
qed

end
